theory Spec2Isabelle
  imports Complex_Main "HOL-Library.Sublist" "HOL-Library.Char_ord"
begin

section \<open>Conventions\<close>

text \<open>
  A Python string is the list of its code points, each below 256.  A Python value that
  is either \<open>None\<close> or a string is a \<^typ>\<open>string option\<close>.  Every exception the
  embedded code can raise is a constructor of \<open>error\<close>.

  The Python sources compute with \<open>float\<close>, IEEE binary64.  In the save format of the
  gesture profiles and in the scores of the intent resolver, where rounding decides what
  is returned, every operation is the exact real operation followed by \<open>fl64\<close>, and a
  decimal literal is \<open>fl64\<close> of its value.  Elsewhere a float is read as a
  \<^typ>\<open>real\<close> and a float operation as the exact real operation.
\<close>

datatype error =
    FileNotFoundError
  | ValueError
  | ZeroDivisionError
  | IndexError
  | Empty
  | ApiError

section \<open>Binary64 arithmetic\<close>

text \<open>Rounding to the nearest integer, a tie going to the even one.\<close>

definition round_half_even :: "real \<Rightarrow> int" where
  "round_half_even x =
     (let f = \<lfloor>x\<rfloor>; d = x - real_of_int f
      in if d < 1 / 2 then f else if 1 / 2 < d then f + 1 else if even f then f else f + 1)"

text \<open>
  The binary64 number nearest to a real: 53 significant bits, the unit in the last place
  being \<open>2 ^ (e - 52)\<close> for a magnitude in \<open>[2 ^ e, 2 ^ (e + 1))\<close>, with the exponent not
  below \<open>-1022\<close>.  Magnitudes beyond the largest binary64 number, which Python turns into
  \<open>inf\<close>, are outside the model.
\<close>

definition fl64 :: "real \<Rightarrow> real" where
  "fl64 x =
     (if x = 0 then 0
      else
        let e = max \<lfloor>log 2 \<bar>x\<bar>\<rfloor> (- 1022);
            ulp = 2 powr real_of_int (e - 52)
        in real_of_int (round_half_even (x / ulp)) * ulp)"

section \<open>Single-slot result mailboxes\<close>

subsection \<open>\<open>queue.Queue\<close> as used by the servers\<close>

text \<open>
  A \<open>Queue(maxsize=m)\<close> is the list of its items, oldest first.  \<open>get_nowait\<close>
  raises \<open>Empty\<close> on an empty queue.  A blocking \<open>put\<close> on a full queue never
  returns when nobody else takes an item: that is the value \<open>None\<close>.
\<close>

definition queue_empty :: "'a list \<Rightarrow> bool" where
  "queue_empty q = (q = [])"

definition get_nowait :: "'a list \<Rightarrow> error + ('a \<times> 'a list)" where
  "get_nowait q = (case q of [] \<Rightarrow> Inl Empty | x # xs \<Rightarrow> Inr (x, xs))"

definition queue_put :: "nat \<Rightarrow> 'a list \<Rightarrow> 'a \<Rightarrow> 'a list option" where
  "queue_put maxsize q x = (if length q < maxsize then Some (q @ [x]) else None)"

subsection \<open>\<open>KeyboardAsrServer\<close> (asr/typing\_asr.py)\<close>

record keyboard_asr =
  result_queue :: "string list"
  k_have_new_result :: bool

text \<open>\<open>_put_result\<close>: under the result lock, drop an unread item, put the new one, raise the flag.\<close>

definition k_put_result :: "string \<Rightarrow> keyboard_asr \<Rightarrow> keyboard_asr option" where
  "k_put_result text s =
     (let q1 = (if \<not> queue_empty (result_queue s)
                then (case get_nowait (result_queue s) of
                        Inl e \<Rightarrow> result_queue s
                      | Inr (x, rest) \<Rightarrow> rest)
                else result_queue s)
      in case queue_put 1 q1 text of
           None \<Rightarrow> None
         | Some q2 \<Rightarrow> Some (s\<lparr>result_queue := q2, k_have_new_result := True\<rparr>))"

text \<open>\<open>get\<close>: any exception inside (here \<open>Empty\<close>) is swallowed and \<open>None\<close> returned,
  the flag being left as it was.\<close>

definition k_get :: "keyboard_asr \<Rightarrow> string option \<times> keyboard_asr" where
  "k_get s =
     (if k_have_new_result s
      then (case get_nowait (result_queue s) of
              Inl e \<Rightarrow> (None, s)
            | Inr (x, rest) \<Rightarrow> (Some x, s\<lparr>result_queue := rest, k_have_new_result := False\<rparr>))
      else (None, s))"

definition k_has_new_result :: "keyboard_asr \<Rightarrow> bool" where
  "k_has_new_result s = k_have_new_result s"

fun k_put_all :: "keyboard_asr \<Rightarrow> string list \<Rightarrow> keyboard_asr option" where
  "k_put_all s [] = Some s"
| "k_put_all s (v # vs) =
     (case k_put_result v s of None \<Rightarrow> None | Some s' \<Rightarrow> k_put_all s' vs)"

subsection \<open>The result slot of \<open>Retrieve\<close> (retrieve/retrieve.py)\<close>

text \<open>A catalog entry of \<open>_type_info.json\<close>: \<open>gid\<close> is \<open>None\<close> when the entry has no
  \<open>id\<close> key, \<open>Some None\<close> when the key holds a JSON null and \<open>Some (Some s)\<close> when
  it holds the string \<open>s\<close>; the other keys, when present, hold strings and a list of
  strings, and default as \<open>dict.get\<close> does in the source.  \<open>type_files\<close> lists ids
  as Python values.\<close>

record gesture =
  gid :: "string option option"
  gname :: string
  usage :: string
  intents :: "string list"
  pose :: string

record retrieve =
  type_files :: "string option list"
  types :: "gesture list"
  r_have_new_result :: bool
  r_result :: "string option"
  have_new_input :: bool
  r_input :: string

text \<open>The locked block at the end of an iteration of \<open>spin\<close>.\<close>

definition r_put_result :: "string option \<Rightarrow> retrieve \<Rightarrow> retrieve" where
  "r_put_result type_name s = s\<lparr>r_result := type_name, r_have_new_result := True\<rparr>"

definition r_has_new_result :: "retrieve \<Rightarrow> bool" where
  "r_has_new_result s = r_have_new_result s"

definition r_get :: "retrieve \<Rightarrow> string option \<times> retrieve" where
  "r_get s =
     (if r_have_new_result s
      then (r_result s, s\<lparr>r_have_new_result := False\<rparr>)
      else (None, s))"

definition r_retrieve :: "string \<Rightarrow> retrieve \<Rightarrow> retrieve" where
  "r_retrieve query s = s\<lparr>r_input := query, have_new_input := True\<rparr>"

section \<open>numpy arrays of shape (n,)\<close>

type_synonym vec = "real list"

definition bind_e :: "error + 'a \<Rightarrow> ('a \<Rightarrow> error + 'b) \<Rightarrow> error + 'b" where
  "bind_e m f = (case m of Inl e \<Rightarrow> Inl e | Inr x \<Rightarrow> f x)"

text \<open>An elementwise binary operation on two one-dimensional arrays: equal shapes combine
  pointwise, a shape \<open>(1,)\<close> broadcasts, any other pair of shapes raises \<open>ValueError\<close>.\<close>

definition bc2 :: "(real \<Rightarrow> real \<Rightarrow> real) \<Rightarrow> vec \<Rightarrow> vec \<Rightarrow> error + vec" where
  "bc2 f a b =
     (if length a = length b then Inr (map2 f a b)
      else if length a = 1 then Inr (map (f (hd a)) b)
      else if length b = 1 then Inr (map (\<lambda>x. f x (hd b)) a)
      else Inl ValueError)"

text \<open>\<open>a[idx]\<close> with an index array: \<open>IndexError\<close> when an index is out of range.\<close>

definition take_idx :: "vec \<Rightarrow> nat list \<Rightarrow> error + vec" where
  "take_idx a idx =
     (if list_all (\<lambda>i. i < length a) idx then Inr (map (\<lambda>i. a ! i) idx) else Inl IndexError)"

text \<open>\<open>a[idx] = v\<close> with an index array: the assignments happen in index order; \<open>v\<close>
  must have the shape of \<open>idx\<close> or broadcast to it.\<close>

definition put_idx :: "vec \<Rightarrow> nat list \<Rightarrow> vec \<Rightarrow> error + vec" where
  "put_idx a idx v =
     (if \<not> list_all (\<lambda>i. i < length a) idx then Inl IndexError
      else if length v = length idx then Inr (foldl (\<lambda>j (i, x). j[i := x]) a (zip idx v))
      else if length v = 1 then Inr (foldl (\<lambda>j i. j[i := hd v]) a idx)
      else Inl ValueError)"

text \<open>\<open>np.argsort\<close>: the positions of the elements in ascending order of value.\<close>

definition argsort :: "nat list \<Rightarrow> nat list" where
  "argsort xs = map snd (sort_key fst (zip xs [0..<length xs]))"

section \<open>The save format of gesture profiles\<close>

definition reorder_index :: "nat list" where
  "reorder_index = [9, 8, 10, 11, 5, 4, 6, 7, 1, 0, 2, 3, 12, 13, 14, 15]"

definition inverse_index :: "nat list" where
  "inverse_index = argsort reorder_index"

text \<open>\<open>LeapCreateType._get_current_leap_pos\<close> (leap\_1\_create\_type.py), applied to the
  positions \<open>read_pos()\<close> returned, an array of binary64 numbers.\<close>

definition get_current_leap_pos :: "vec \<Rightarrow> error + vec" where
  "get_current_leap_pos current_pos =
     (let joints = map (\<lambda>x. fl64 (x - fl64 3.14159)) current_pos;
          inverse_index = argsort reorder_index
      in take_idx joints inverse_index)"

text \<open>\<open>_decode_saved\<close> (leap\_2\_test\_type.py).\<close>

definition decode_saved :: "vec \<Rightarrow> error + vec" where
  "decode_saved v =
     bind_e (put_idx (replicate 16 0) inverse_index v)
       (\<lambda>joints. Inr (map (\<lambda>x. fl64 (x + fl64 3.14159)) joints))"

text \<open>\<open>_decode_saved\<close> nested in \<open>RealTimeRunner.load_type\<close> (leap\_3\_realtime.py).\<close>

definition rt_decode_saved :: "vec \<Rightarrow> error + vec" where
  "rt_decode_saved v =
     bind_e (put_idx (replicate 16 0) inverse_index v)
       (\<lambda>joints. Inr (map (\<lambda>x. fl64 (x + fl64 3.14159)) joints))"

section \<open>Pose synthesis in the fusion loop (leap\_3\_realtime.py)\<close>

record ratios =
  thumb :: real
  index :: real
  middle :: real
  ring :: real
  pinky :: real

record runner =
  category :: string
  curr_type :: string
  open_pos :: vec
  close_pos :: vec

definition thumb_mask :: vec where
  "thumb_mask = replicate 12 0 @ replicate 4 1"

definition index_mask :: vec where
  "index_mask = replicate 4 1 @ replicate 12 0"

definition middle_mask :: vec where
  "middle_mask = replicate 4 0 @ replicate 4 1 @ replicate 8 0"

definition ring_mask :: vec where
  "ring_mask = replicate 8 0 @ replicate 4 1 @ replicate 4 0"

text \<open>One summand of \<open>type_pos\<close>:
  \<open>(self.open_pos * (1 - r) + self.close_pos * r) * mask\<close>.\<close>

definition masked_interp :: "runner \<Rightarrow> real \<Rightarrow> vec \<Rightarrow> error + vec" where
  "masked_interp s r msk =
     bind_e (bc2 (+) (map (\<lambda>x. x * (1 - r)) (open_pos s)) (map (\<lambda>x. x * r) (close_pos s)))
       (\<lambda>v. bc2 (*) v msk)"

text \<open>The target pose of step 3 of \<open>main_loop\<close>, the four summands added left to right.\<close>

definition type_pos :: "runner \<Rightarrow> ratios \<Rightarrow> error + vec" where
  "type_pos s ratio =
     bind_e (masked_interp s (thumb ratio) thumb_mask) (\<lambda>t.
     bind_e (masked_interp s (index ratio) index_mask) (\<lambda>i.
     bind_e (bc2 (+) t i) (\<lambda>ti.
     bind_e (masked_interp s (middle ratio) middle_mask) (\<lambda>m.
     bind_e (bc2 (+) ti m) (\<lambda>tim.
     bind_e (masked_interp s (ring ratio) ring_mask) (\<lambda>r.
     bc2 (+) tim r))))))"

section \<open>Flexion ratios (hand\_detect/detectFinger.py)\<close>

type_synonym vec3 = "real \<times> real \<times> real"

definition sub3 :: "vec3 \<Rightarrow> vec3 \<Rightarrow> vec3" where
  "sub3 a b = (case a of (ax, ay, az) \<Rightarrow> case b of (bx, by, bz) \<Rightarrow> (ax - bx, ay - by, az - bz))"

text \<open>\<open>np.linalg.norm\<close> of a vector of three components.\<close>

definition norm3 :: "vec3 \<Rightarrow> real" where
  "norm3 v = (case v of (x, y, z) \<Rightarrow> sqrt (x * x + y * y + z * z))"

text \<open>\<open>np.clip(a, a_min, a_max)\<close> is \<open>minimum(a_max, maximum(a, a_min))\<close>.\<close>

definition np_clip :: "real \<Rightarrow> real \<Rightarrow> real \<Rightarrow> real" where
  "np_clip a a_min a_max = min a_max (max a a_min)"

text \<open>The body of \<open>_detection_loop\<close> from the joint positions to the published ratios.
  Indexing past the end of \<open>joint_pos\<close> raises \<open>IndexError\<close>; the loop catches it and
  publishes nothing.\<close>

definition finger_ratios :: "vec3 list \<Rightarrow> error + ratios" where
  "finger_ratios joint_pos =
     (if length joint_pos \<le> 20 then Inl IndexError
      else
        let thumb_vec = (case sub3 (joint_pos ! 4) (joint_pos ! 0) of (x, y, z) \<Rightarrow> (0, y, 0));
            thumb_length = norm3 thumb_vec;
            index_length = norm3 (sub3 (joint_pos ! 8) (joint_pos ! 0));
            middle_length = norm3 (sub3 (joint_pos ! 12) (joint_pos ! 0));
            ring_length = norm3 (sub3 (joint_pos ! 16) (joint_pos ! 0));
            pinky_length = norm3 (sub3 (joint_pos ! 20) (joint_pos ! 0));
            thumb_ratio = np_clip ((thumb_length - 0.02) / (0.09 - 0.02)) 0 1;
            index_ratio = np_clip ((index_length - 0.09) / (0.17 - 0.09)) 0 1;
            middle_ratio = np_clip ((middle_length - 0.09) / (0.18 - 0.09)) 0 1;
            ring_ratio = np_clip ((ring_length - 0.07) / (0.17 - 0.07)) 0 1;
            pinky_ratio = np_clip ((pinky_length - 0.08) / (0.14 - 0.08)) 0 1
        in Inr \<lparr>thumb = 1 - thumb_ratio, index = 1 - index_ratio, middle = 1 - middle_ratio,
                 ring = 1 - ring_ratio, pinky = 1 - pinky_ratio\<rparr>)"

section \<open>Free-drag mode of the hand (leap\_hand\_utils/leap\_node.py)\<close>

text \<open>
  The fields of \<open>LeapNode\<close> that the free-drag mode touches, together with what the
  servo bus has been sent: \<open>dxl_curr_lim\<close> is the array last written to the current-limit
  register (address 102), \<open>dxl_desired_pos\<close> the list of all arrays passed to
  \<open>write_desired_pos\<close>, oldest first.  \<open>free_drag_thread\<close> is \<open>None\<close> for no thread
  object, \<open>Some True\<close> for one whose thread is running and \<open>Some False\<close> for one whose
  thread has ended; \<open>workers\<close> counts the running threads of \<open>_update_goal_pos_loop\<close>.
  What the bus reports (\<open>read_pos\<close>, \<open>read_vel\<close>, \<open>read_cur\<close>) is an argument of
  the operation that reads it.
\<close>

record leap_node =
  curr_lim :: real
  original_curr_lim :: real
  curr_pos :: vec
  filtered_current :: vec
  free_drag_active :: bool
  free_drag_thread :: "bool option"
  workers :: nat
  motors :: "nat list"
  dxl_curr_lim :: vec
  dxl_desired_pos :: "vec list"

definition enable_free_drag_mode :: "vec \<Rightarrow> leap_node \<Rightarrow> leap_node" where
  "enable_free_drag_mode read_cur s =
     (if free_drag_active s then s
      else s\<lparr>filtered_current := read_cur,
              original_curr_lim := curr_lim s,
              curr_lim := 30,
              dxl_curr_lim := map (\<lambda>x. x * 30) (replicate (length (motors s)) 1),
              free_drag_active := True,
              free_drag_thread := Some True,
              workers := workers s + 1\<rparr>)"

text \<open>\<open>join\<close> returns once the thread has left its loop, which it does on seeing the
  cleared flag; a thread that has already ended is joined at once.\<close>

definition disable_free_drag_mode :: "vec \<Rightarrow> leap_node \<Rightarrow> leap_node" where
  "disable_free_drag_mode read_pos s =
     (if \<not> free_drag_active s then s
      else
        let s1 = s\<lparr>free_drag_active := False\<rparr>;
            s2 = (case free_drag_thread s1 of
                    None \<Rightarrow> s1
                  | Some alive \<Rightarrow>
                      if alive then s1\<lparr>free_drag_thread := Some False, workers := workers s1 - 1\<rparr>
                      else s1);
            s3 = s2\<lparr>curr_lim := original_curr_lim s2\<rparr>;
            s4 = s3\<lparr>dxl_curr_lim := map (\<lambda>x. x * curr_lim s3) (replicate (length (motors s3)) 1)\<rparr>;
            s5 = s4\<lparr>dxl_desired_pos := dxl_desired_pos s4 @ [read_pos]\<rparr>
        in s5\<lparr>free_drag_thread := None\<rparr>)"

definition thresholds :: vec where
  "thresholds = replicate 16 0.05"

text \<open>The \<open>for i in range(16)\<close> loop of \<open>_update_goal_pos_loop\<close> that fills
  \<open>delta_pos\<close>; an array shorter than 16 raises \<open>IndexError\<close>.\<close>

definition delta_pos :: "vec \<Rightarrow> vec \<Rightarrow> real \<Rightarrow> error + vec" where
  "delta_pos pos_error current_vel loop_time =
     (if length pos_error < 16 \<or> length current_vel < 16 then Inl IndexError
      else Inr (map (\<lambda>i. if pos_error ! i > thresholds ! i + 0.05
                           then current_vel ! i * loop_time * 5
                           else current_vel ! i * loop_time) [0..<16]))"

text \<open>\<open>np.where(mask, a, b)\<close> on arrays of one shape.\<close>

definition np_where :: "bool list \<Rightarrow> vec \<Rightarrow> vec \<Rightarrow> error + vec" where
  "np_where m a b =
     (if length m = length a \<and> length a = length b
      then Inr (map (\<lambda>(c, x, y). if c then x else y) (zip m (zip a b)))
      else Inl ValueError)"

text \<open>The positions one iteration of the loop commands, from the measured position and
  velocity, the duration of the previous iteration and the last commanded target.\<close>

definition updated_positions :: "vec \<Rightarrow> vec \<Rightarrow> real \<Rightarrow> vec \<Rightarrow> error + vec" where
  "updated_positions current_pos current_vel loop_time target =
     bind_e (bc2 (-) current_pos target) (\<lambda>pos_error.
     bind_e (delta_pos pos_error current_vel loop_time) (\<lambda>dp.
     bind_e (bc2 (+) current_pos dp) (\<lambda>new_target_pos.
     bind_e (bc2 (-) new_target_pos target) (\<lambda>d.
     bind_e (bc2 (\<lambda>x t. if x > t then 1 else 0) (map abs d) thresholds) (\<lambda>update_mask.
     np_where (map (\<lambda>x. x \<noteq> 0) update_mask) new_target_pos target)))))"

text \<open>One iteration of \<open>_update_goal_pos_loop\<close>, run by the worker thread while the flag
  is set.  An exception ends the thread.\<close>

definition update_goal_pos_iter :: "vec \<times> vec \<times> real \<Rightarrow> leap_node \<Rightarrow> leap_node" where
  "update_goal_pos_iter inp s =
     (case inp of (current_pos, current_vel, loop_time) \<Rightarrow>
        if \<not> free_drag_active s \<or> free_drag_thread s \<noteq> Some True then s
        else (case updated_positions current_pos current_vel loop_time (curr_pos s) of
                Inl e \<Rightarrow> s\<lparr>free_drag_thread := Some False, workers := workers s - 1\<rparr>
              | Inr upd \<Rightarrow> s\<lparr>dxl_desired_pos := dxl_desired_pos s @ [upd], curr_pos := upd\<rparr>))"

section \<open>Strings and files\<close>

text \<open>The code points below 256 that \<open>str.strip\<close> and \<open>str.split\<close> treat as white
  space.\<close>

definition is_space :: "char \<Rightarrow> bool" where
  "is_space c = ((of_char c :: nat) \<in> {9, 10, 11, 12, 13, 28, 29, 30, 31, 32, 133, 160})"

definition strip_chars :: "(char \<Rightarrow> bool) \<Rightarrow> string \<Rightarrow> string" where
  "strip_chars P s = rev (dropWhile P (rev (dropWhile P s)))"

definition py_strip :: "string \<Rightarrow> string" where
  "py_strip s = strip_chars is_space s"

text \<open>\<open>s.split()\<close>: the maximal runs of characters that are not white space.\<close>

fun split_acc :: "string \<Rightarrow> string \<Rightarrow> string list" where
  "split_acc cur [] = (if cur = [] then [] else [cur])"
| "split_acc cur (c # cs) =
     (if is_space c then (if cur = [] then split_acc [] cs else cur # split_acc [] cs)
      else split_acc (cur @ [c]) cs)"

definition py_split :: "string \<Rightarrow> string list" where
  "py_split s = split_acc [] s"

definition replace_char :: "char \<Rightarrow> char \<Rightarrow> string \<Rightarrow> string" where
  "replace_char a b s = map (\<lambda>c. if c = a then b else c) s"

text \<open>\<open>os.path.join\<close> of two components (posixpath).\<close>

definition path_join :: "string \<Rightarrow> string \<Rightarrow> string" where
  "path_join a b =
     (if b \<noteq> [] \<and> hd b = CHR ''/'' then b
      else if a = [] \<or> last a = CHR ''/'' then a @ b
      else a @ ''/'' @ b)"

text \<open>\<open>f.readline()\<close> on the unread rest of a text file: the line with its newline, or
  the empty string at the end of the file; and the rest after it.\<close>

definition readline :: "string \<Rightarrow> string \<times> string" where
  "readline rest =
     (case dropWhile (\<lambda>c. c \<noteq> CHR 0x0A) rest of
        [] \<Rightarrow> (rest, [])
      | c # after \<Rightarrow> (takeWhile (\<lambda>c. c \<noteq> CHR 0x0A) rest @ [c], after))"

section \<open>Loading and switching gesture profiles (leap\_3\_realtime.py)\<close>

text \<open>
  The file system is a map from the path of a regular file to its text.  The builtin
  \<open>float\<close> is a parameter: \<open>None\<close> where it raises \<open>ValueError\<close>.
\<close>

definition parse_line :: "(string \<Rightarrow> real option) \<Rightarrow> string \<Rightarrow> error + vec" where
  "parse_line pyfloat line0 =
     (let line = strip_chars (\<lambda>c. c = CHR ''['' \<or> c = CHR '']'') (py_strip line0);
          parts = filter (\<lambda>p. p \<noteq> []) (py_split (replace_char CHR '','' CHR '' '' line));
          vals = map pyfloat parts
      in if list_ex (\<lambda>v. v = None) vals then Inl ValueError
         else if length vals \<noteq> 16 then Inl ValueError
         else Inr (map the vals))"

definition load_type ::
  "(string \<Rightarrow> string option) \<Rightarrow> (string \<Rightarrow> real option) \<Rightarrow> string \<Rightarrow> runner \<Rightarrow> string
     \<Rightarrow> error + (vec \<times> vec)" where
  "load_type fs pyfloat current_dir s type_name =
     (let type_file = path_join (path_join (path_join current_dir ''TypeLibrary'') (category s))
                        (type_name @ ''.txt'')
      in case fs type_file of
           None \<Rightarrow> Inl FileNotFoundError
         | Some text \<Rightarrow>
             (case readline text of (l1, rest1) \<Rightarrow>
                bind_e (parse_line pyfloat l1) (\<lambda>v1.
                bind_e (rt_decode_saved v1) (\<lambda>open_abs.
                  case readline rest1 of (l2, rest2) \<Rightarrow>
                    bind_e (parse_line pyfloat l2) (\<lambda>v2.
                    bind_e (rt_decode_saved v2) (\<lambda>close_abs.
                      Inr (open_abs, close_abs)))))))"

text \<open>\<open>change_type\<close>: the result is the exception that escapes it, if any, and the
  runner as the call leaves it.\<close>

definition change_type ::
  "(string \<Rightarrow> string option) \<Rightarrow> (string \<Rightarrow> real option) \<Rightarrow> string \<Rightarrow> string \<Rightarrow> runner
     \<Rightarrow> error option \<times> runner" where
  "change_type fs pyfloat current_dir new_type s =
     (let s1 = s\<lparr>curr_type := new_type\<rparr>
      in case load_type fs pyfloat current_dir s1 (curr_type s1) of
           Inl e \<Rightarrow> (Some e, s1)
         | Inr (o_abs, c_abs) \<Rightarrow> (None, s1\<lparr>open_pos := o_abs, close_pos := c_abs\<rparr>))"

text \<open>Step 1 of \<open>main_loop\<close> for a non-empty command: the runner afterwards, and the
  query handed to the retriever, if any.  A command starting with \<open>/\<close> is a direct
  switch; when it succeeds the iteration ends (\<open>continue\<close>), when it fails the error is
  printed and the command goes on to the retriever.\<close>

definition command_step ::
  "(string \<Rightarrow> string option) \<Rightarrow> (string \<Rightarrow> real option) \<Rightarrow> string \<Rightarrow> string \<Rightarrow> runner
     \<Rightarrow> runner \<times> string option" where
  "command_step fs pyfloat current_dir new_query s =
     (if new_query \<noteq> [] \<and> hd new_query = CHR ''/''
      then (case change_type fs pyfloat current_dir (tl new_query) s of
              (None, s') \<Rightarrow> (s', None)
            | (Some e, s') \<Rightarrow> (s', Some new_query))
      else (s, Some new_query))"

section \<open>Voice segmentation (asr/tencent\_asr.py)\<close>

text \<open>
  A block of audio (\<open>indata\<close>) is the list of its rows, one row of int16 samples per
  sample time.  The callback is given the block together with the reading of
  \<open>time.time()\<close> it takes.
\<close>

type_synonym block = "int list list"

record asr_cfg =
  RATE :: nat
  SILENCE_THRESHOLD :: real
  MIN_AUDIO_LENGTH :: real
  MAX_SILENCE_DURATION :: real

record asr_server =
  voice_detected :: bool
  voice_start_time :: real
  silence_start_time :: real
  current_recording :: "block list"
  audio_queue :: "block list"

text \<open>\<open>_calculate_volume\<close>: the root of the mean square of all samples; the mean of an
  empty array is NaN, here \<open>None\<close>.\<close>

definition calculate_volume :: "block \<Rightarrow> real option" where
  "calculate_volume audio_data =
     (let xs = concat audio_data
      in if xs = [] then None
         else Some (sqrt ((\<Sum>x\<leftarrow>xs. (real_of_int x) ^ 2) / real (length xs))))"

text \<open>\<open>_is_silence\<close>: a comparison with NaN is false.\<close>

definition is_silence :: "asr_cfg \<Rightarrow> block \<Rightarrow> bool" where
  "is_silence cfg audio_data =
     (case calculate_volume audio_data of
        None \<Rightarrow> False
      | Some volume \<Rightarrow> volume < SILENCE_THRESHOLD cfg)"

definition audio_callback :: "asr_cfg \<Rightarrow> real \<times> block \<Rightarrow> asr_server \<Rightarrow> error + asr_server" where
  "audio_callback cfg ev s =
     (case ev of (current_time, indata) \<Rightarrow>
      if \<not> is_silence cfg indata then
        (let s1 = (if \<not> voice_detected s
                   then s\<lparr>voice_detected := True, voice_start_time := current_time,
                           silence_start_time := 0\<rparr>
                   else s)
         in Inr (s1\<lparr>current_recording := current_recording s1 @ [indata],
                     silence_start_time := 0\<rparr>))
      else if voice_detected s then
        (let s1 = (if silence_start_time s = 0 then s\<lparr>silence_start_time := current_time\<rparr> else s);
             silence_duration = current_time - silence_start_time s1
         in if silence_duration < MAX_SILENCE_DURATION cfg
            then Inr (s1\<lparr>current_recording := current_recording s1 @ [indata]\<rparr>)
            else
              bind_e
                (if current_recording s1 \<noteq> [] then
                   (let audio_data = concat (current_recording s1)
                    in if RATE cfg = 0 then Inl ZeroDivisionError
                       else if real (length audio_data) / real (RATE cfg) \<ge> MIN_AUDIO_LENGTH cfg
                       then Inr (s1\<lparr>audio_queue := audio_queue s1 @ [audio_data]\<rparr>)
                       else Inr s1)
                 else Inr s1)
                (\<lambda>s2. Inr (s2\<lparr>current_recording := [], voice_detected := False,
                               silence_start_time := 0\<rparr>)))
      else Inr s)"

text \<open>The callback on a stream of blocks; an exception ends the stream.\<close>

fun feed :: "asr_cfg \<Rightarrow> (real \<times> block) list \<Rightarrow> asr_server \<Rightarrow> error + asr_server" where
  "feed cfg [] s = Inr s"
| "feed cfg (ev # evs) s = bind_e (audio_callback cfg ev s) (feed cfg evs)"

text \<open>The state \<open>_record_audio\<close> sets up before the stream opens.\<close>

definition record_start :: "asr_server \<Rightarrow> asr_server" where
  "record_start s = s\<lparr>voice_detected := False, silence_start_time := 0, current_recording := []\<rparr>"

section \<open>Intent resolution (retrieve/retrieve.py)\<close>

subsection \<open>String operations of the scorer\<close>

text \<open>\<open>str.lower\<close> on code points below 256: the letters \<open>A\<close> to \<open>Z\<close> and the
  capital letters of Latin-1; and the character class \<open>[a-zA-Z]\<close>.\<close>

definition lower_char :: "char \<Rightarrow> char" where
  "lower_char c =
     (case map_of
        (zip ''ABCDEFGHIJKLMNOPQRSTUVWXYZ'' ''abcdefghijklmnopqrstuvwxyz'' @
         [(CHR 0xC0, CHR 0xE0), (CHR 0xC1, CHR 0xE1), (CHR 0xC2, CHR 0xE2),
          (CHR 0xC3, CHR 0xE3), (CHR 0xC4, CHR 0xE4), (CHR 0xC5, CHR 0xE5),
          (CHR 0xC6, CHR 0xE6), (CHR 0xC7, CHR 0xE7), (CHR 0xC8, CHR 0xE8),
          (CHR 0xC9, CHR 0xE9), (CHR 0xCA, CHR 0xEA), (CHR 0xCB, CHR 0xEB),
          (CHR 0xCC, CHR 0xEC), (CHR 0xCD, CHR 0xED), (CHR 0xCE, CHR 0xEE),
          (CHR 0xCF, CHR 0xEF), (CHR 0xD0, CHR 0xF0), (CHR 0xD1, CHR 0xF1),
          (CHR 0xD2, CHR 0xF2), (CHR 0xD3, CHR 0xF3), (CHR 0xD4, CHR 0xF4),
          (CHR 0xD5, CHR 0xF5), (CHR 0xD6, CHR 0xF6), (CHR 0xD8, CHR 0xF8),
          (CHR 0xD9, CHR 0xF9), (CHR 0xDA, CHR 0xFA), (CHR 0xDB, CHR 0xFB),
          (CHR 0xDC, CHR 0xFC), (CHR 0xDD, CHR 0xFD), (CHR 0xDE, CHR 0xFE)]) c of
        None \<Rightarrow> c
      | Some l \<Rightarrow> l)"

definition py_lower :: "string \<Rightarrow> string" where
  "py_lower s = map lower_char s"

definition is_alpha :: "char \<Rightarrow> bool" where
  "is_alpha c = (c \<in> set (''ABCDEFGHIJKLMNOPQRSTUVWXYZ'' @ ''abcdefghijklmnopqrstuvwxyz''))"

text \<open>\<open>p in s\<close> on strings.\<close>

fun is_substr :: "string \<Rightarrow> string \<Rightarrow> bool" where
  "is_substr p [] = (p = [])"
| "is_substr p (c # cs) = (prefix p (c # cs) \<or> is_substr p cs)"

text \<open>\<open>re.findall(r"[a-zA-Z]+", s)\<close>: the maximal runs of letters.\<close>

fun findall_alpha_acc :: "string \<Rightarrow> string \<Rightarrow> string list" where
  "findall_alpha_acc cur [] = (if cur = [] then [] else [cur])"
| "findall_alpha_acc cur (c # cs) =
     (if is_alpha c then findall_alpha_acc (cur @ [c]) cs
      else if cur = [] then findall_alpha_acc [] cs
      else cur # findall_alpha_acc [] cs)"

definition findall_alpha :: "string \<Rightarrow> string list" where
  "findall_alpha s = findall_alpha_acc [] s"

text \<open>\<open>sep.join(xs)\<close>.\<close>

fun py_join :: "string \<Rightarrow> string list \<Rightarrow> string" where
  "py_join sep [] = []"
| "py_join sep [x] = x"
| "py_join sep (x # y # ys) = x @ sep @ py_join sep (y # ys)"

subsection \<open>Loading the catalog\<close>

text \<open>\<open>t.get('id')\<close> on a catalog entry.\<close>

definition get_id :: "gesture \<Rightarrow> string option" where
  "get_id t = (case gid t of None \<Rightarrow> None | Some v \<Rightarrow> v)"

text \<open>
  \<open>load_type_library\<close>: \<open>json\<close> is the content of \<open>_type_info.json\<close> when that file
  exists and holds a list of entries, \<open>listing\<close> the names in the library directory.
  From the JSON list every entry with an \<open>id\<close> key contributes that key's value to
  \<open>type_files\<close>, \<open>None\<close> for a null.
\<close>

definition load_type_library :: "gesture list option \<Rightarrow> string list \<Rightarrow> retrieve \<Rightarrow> retrieve" where
  "load_type_library json listing r =
     (case json of
        Some data \<Rightarrow>
          r\<lparr>types := data,
            type_files := map get_id (filter (\<lambda>t. gid t \<noteq> None) data)\<rparr>
      | None \<Rightarrow>
          (let tf = map (\<lambda>f. take (length f - 4) f) (filter (\<lambda>f. suffix ''.txt'' f) listing)
           in r\<lparr>type_files := map Some tf,
                types := map (\<lambda>name. \<lparr>gid = Some (Some name), gname = [], usage = [],
                                        intents = [], pose = []\<rparr>) tf\<rparr>))"

subsection \<open>Local scoring\<close>

text \<open>\<open>_local_score\<close>, in binary64; \<open>sm_ratio a b\<close> stands for
  \<open>difflib.SequenceMatcher(None, a, b).ratio()\<close>.\<close>

definition local_score :: "(string \<Rightarrow> string \<Rightarrow> real) \<Rightarrow> string \<Rightarrow> gesture \<Rightarrow> real" where
  "local_score sm_ratio query gesture =
     (let q = py_strip (py_lower query);
          g_id = (case get_id gesture of None \<Rightarrow> [] | Some i \<Rightarrow> i);
          base = sm_ratio q g_id;
          bonus_name = (if gname gesture \<noteq> [] \<and> is_substr (gname gesture) q
                        then fl64 0.15 else 0);
          bonus_intent = min (foldl (\<lambda>b it. if it \<noteq> [] \<and> is_substr (py_lower it) q
                                               then fl64 (b + fl64 0.1) else b)
                                    0 (intents gesture))
                             (fl64 0.3);
          tokens = findall_alpha (py_lower (usage gesture));
          token_hit = length (filter (\<lambda>t. length t > 3 \<and> is_substr t q) tokens);
          bonus_usage = min (fl64 (real token_hit * fl64 0.05)) (fl64 0.15)
      in fl64 (fl64 (fl64 (base + bonus_name) + bonus_intent) + bonus_usage))"

text \<open>\<open>_local_retrieve\<close>: the id of the first entry with the strictly highest positive
  score, and that score.\<close>

definition local_retrieve ::
  "(string \<Rightarrow> string \<Rightarrow> real) \<Rightarrow> retrieve \<Rightarrow> string \<Rightarrow> string option \<times> real" where
  "local_retrieve sm_ratio r query =
     foldl (\<lambda>(best, best_score) g.
              let s = local_score sm_ratio query g
              in if s > best_score then (get_id g, s) else (best, best_score))
           (None, 0) (types r)"

subsection \<open>Resolution with the external classifier\<close>

definition brief_line :: "gesture \<Rightarrow> string" where
  "brief_line t =
     (case get_id t of None \<Rightarrow> ''None'' | Some i \<Rightarrow> i) @ '': '' @ pose t @ ''; intents=''
       @ py_join '','' (take 3 (intents t))"

definition build_prompt :: "retrieve \<Rightarrow> string \<Rightarrow> string" where
  "build_prompt r query =
     (let catalog = py_join [CHR 0x0A] (map brief_line (types r))
      in ''You are a gesture type selector. Given a natural language user query (maybe noisy ASR). ''
         @ ''Choose the best gesture id from the catalog. If nothing fits, answer None. Just output the id or None.''
         @ [CHR 0x0A] @ ''Catalog:'' @ [CHR 0x0A] @ catalog @ [CHR 0x0A]
         @ ''Query: '' @ query @ [CHR 0x0A] @ ''Answer:'')"

text \<open>The truth value of \<open>local_id\<close> in a condition: neither \<open>None\<close> nor empty.\<close>

definition truthy :: "string option \<Rightarrow> bool" where
  "truthy v = (case v of None \<Rightarrow> False | Some s \<Rightarrow> s \<noteq> [])"

text \<open>
  \<open>_retrieve\<close>.  \<open>llm prompt\<close> stands for the chat-completions call and the reading of
  its first message: the content, or the exception raised by the call or by reading or
  stripping the content; after an exception the candidate is \<open>None\<close>, which
  \<open>type_files\<close> contains when the catalog has a null id.
  The result is the value returned together with the prompts sent to the classifier, in
  order.
\<close>

definition retrieve_impl ::
  "(string \<Rightarrow> string \<Rightarrow> real) \<Rightarrow> (string \<Rightarrow> error + string) \<Rightarrow> retrieve \<Rightarrow> string
     \<Rightarrow> string option \<times> string list" where
  "retrieve_impl sm_ratio llm r query =
     (if type_files r = [] then (None, [])
      else
        case local_retrieve sm_ratio r query of (local_id, score) \<Rightarrow>
          if truthy local_id \<and> score \<ge> fl64 0.75 then (local_id, [])
          else
            let prompt = build_prompt r query;
                candidate = (case llm prompt of Inl e \<Rightarrow> None | Inr content \<Rightarrow> Some (py_strip content))
            in if candidate \<in> set (type_files r) then (candidate, [prompt])
               else if truthy local_id \<and> score \<ge> fl64 0.55 then (local_id, [prompt])
               else (None, [prompt]))"

text \<open>One iteration of \<open>spin\<close>: take a pending input, resolve it and publish the result;
  also the prompts sent to the classifier meanwhile.\<close>

definition spin_step ::
  "(string \<Rightarrow> string \<Rightarrow> real) \<Rightarrow> (string \<Rightarrow> error + string) \<Rightarrow> retrieve
     \<Rightarrow> retrieve \<times> string list" where
  "spin_step sm_ratio llm r =
     (let current_input = (if have_new_input r then Some (r_input r) else None);
          r1 = (if have_new_input r then r\<lparr>have_new_input := False\<rparr> else r)
      in if truthy current_input
         then (case retrieve_impl sm_ratio llm r1 (the current_input) of
                 (type_name, sent) \<Rightarrow> (r_put_result type_name r1, sent))
         else (r1, []))"

section \<open>Properties of binary64 rounding\<close>

lemma fl64_zero: "fl64 0 = 0"
  by (simp add: fl64_def)

lemma fl64_at_exponent:
  assumes "2 powr real_of_int e \<le> \<bar>x\<bar>" and "\<bar>x\<bar> < 2 powr real_of_int (e + 1)"
    and "- 1022 \<le> e"
  shows "fl64 x = real_of_int (round_half_even (x / 2 powr real_of_int (e - 52)))
                    * 2 powr real_of_int (e - 52)"
proof -
  have pos: "0 < \<bar>x\<bar>"
    using assms(1) by (smt (verit) powr_gt_zero)
  then have nz: "x \<noteq> 0" by simp
  have "\<lfloor>log 2 \<bar>x\<bar>\<rfloor> = e"
    using assms(1,2) pos by (subst floor_log_eq_powr_iff) (simp_all add: add.commute)
  then show ?thesis
    using nz assms(3) by (simp add: fl64_def Let_def max_def)
qed

lemma fl64_below_one:
  assumes "1 / 2 ^ k \<le> \<bar>x\<bar>" and "\<bar>x\<bar> < 2 / 2 ^ k" and "k \<le> 1022"
  shows "fl64 x = real_of_int (round_half_even (x * 2 ^ (k + 52))) / 2 ^ (k + 52)"
proof -
  have a: "2 powr (- real k) = 1 / 2 ^ k"
    by (simp add: powr_minus powr_realpow inverse_eq_divide)
  have b: "2 powr (1 - real k) = 2 / 2 ^ k"
    by (simp add: powr_diff powr_realpow)
  have "- real k - 52 = - real (k + 52)" by simp
  then have c: "2 powr (- real k - 52) = 1 / 2 ^ (k + 52)"
    by (simp only: powr_minus powr_realpow inverse_eq_divide)
  have "fl64 x = real_of_int (round_half_even (x / 2 powr real_of_int (- int k - 52)))
                    * 2 powr real_of_int (- int k - 52)"
    using assms by (intro fl64_at_exponent) (simp_all add: a b)
  then show ?thesis
    by (simp add: c)
qed

lemma fl64_above_one:
  assumes "2 ^ k \<le> \<bar>x\<bar>" and "\<bar>x\<bar> < 2 * 2 ^ k" and "k \<le> 52"
  shows "fl64 x = real_of_int (round_half_even (x * 2 ^ (52 - k))) / 2 ^ (52 - k)"
proof -
  have a: "2 powr (real k) = 2 ^ k"
    by (simp add: powr_realpow)
  have b: "2 powr (real k + 1) = 2 * 2 ^ k"
    by (simp add: powr_add powr_realpow)
  have "real k - 52 = - real (52 - k)" using assms(3) by simp
  then have c: "2 powr (real k - 52) = 1 / 2 ^ (52 - k)"
    by (simp only: powr_minus powr_realpow inverse_eq_divide)
  have "fl64 x = real_of_int (round_half_even (x / 2 powr real_of_int (int k - 52)))
                    * 2 powr real_of_int (int k - 52)"
    using assms by (intro fl64_at_exponent) (simp_all add: a b)
  then show ?thesis
    by (simp add: c)
qed

lemma round_half_even_nonneg: "0 \<le> x \<Longrightarrow> 0 \<le> round_half_even x"
  by (auto simp: round_half_even_def Let_def)

lemma fl64_nonneg: "0 \<le> x \<Longrightarrow> 0 \<le> fl64 x"
  by (auto simp: fl64_def Let_def intro!: mult_nonneg_nonneg round_half_even_nonneg)

lemma fl64_offset: "fl64 (3.14159) = 3537115888337719 / 2 ^ 50"
  using fl64_above_one [of 1 "3.14159"]
  by (simp add: round_half_even_def Let_def)

lemma fl64_tenth: "fl64 (0.1) = 3602879701896397 / 2 ^ 55"
  using fl64_below_one [of 4 "0.1"]
  by (simp add: round_half_even_def Let_def)

lemma fl64_tenth_minus_offset: "fl64 (3602879701896397 / 2 ^ 55 - 3537115888337719 / 2 ^ 50) = - 6849051795306913 / 2 ^ 51"
  using fl64_above_one [of 1 "3602879701896397 / 2 ^ 55 - 3537115888337719 / 2 ^ 50"]
  by (simp add: round_half_even_def Let_def)

lemma fl64_back_plus_offset: "fl64 (- 6849051795306913 / 2 ^ 51 + 3537115888337719 / 2 ^ 50) = 225179981368525 / 2 ^ 51"
  using fl64_below_one [of 4 "- 6849051795306913 / 2 ^ 51 + 3537115888337719 / 2 ^ 50"]
  by (simp add: round_half_even_def Let_def)

lemma fl64_tenth_plus_offset: "fl64 (3602879701896397 / 2 ^ 55 + 3537115888337719 / 2 ^ 50) = 7299411758043963 / 2 ^ 51"
  using fl64_above_one [of 1 "3602879701896397 / 2 ^ 55 + 3537115888337719 / 2 ^ 50"]
  by (simp add: round_half_even_def Let_def)

lemma fl64_back_minus_offset: "fl64 (7299411758043963 / 2 ^ 51 - 3537115888337719 / 2 ^ 50) = 225179981368525 / 2 ^ 51"
  using fl64_below_one [of 4 "7299411758043963 / 2 ^ 51 - 3537115888337719 / 2 ^ 50"]
  by (simp add: round_half_even_def Let_def)

lemma fl64_three_quarters: "fl64 (0.75) = 3 / 2 ^ 2"
  using fl64_below_one [of 1 "0.75"]
  by (simp add: round_half_even_def Let_def)





lemma fl64_one: "fl64 (1) = 1"
  using fl64_above_one [of 0 "1"]
  by (simp add: round_half_even_def Let_def)









section \<open>Properties of the mailboxes\<close>

lemma r_put_all_nonempty:
  "vs \<noteq> [] \<Longrightarrow>
   foldl (\<lambda>s v. r_put_result v s) s vs
     = (foldl (\<lambda>s v. r_put_result v s) s vs)\<lparr>r_result := last vs, r_have_new_result := True\<rparr>"
  by (induction vs arbitrary: s rule: rev_induct) (simp_all add: r_put_result_def)

lemma r_get_drained:
  "\<not> r_have_new_result s \<Longrightarrow> ((snd \<circ> r_get) ^^ n) s = s"
  by (induction n) (simp_all add: r_get_def)

lemma r_get_after_publish:
  assumes "r_have_new_result s"
  shows "fst (r_get (((snd \<circ> r_get) ^^ Suc n) s)) = None"
proof -
  have d: "\<not> r_have_new_result (snd (r_get s))"
    using assms by (simp add: r_get_def)
  have "((snd \<circ> r_get) ^^ Suc n) s = ((snd \<circ> r_get) ^^ n) (snd (r_get s))"
    by (simp add: funpow_swap1)
  also have "\<dots> = snd (r_get s)"
    using d by (rule r_get_drained)
  finally show ?thesis
    using d by (simp add: r_get_def)
qed

lemma k_put_result_shape:
  assumes "length (result_queue s) \<le> 1"
  shows "k_put_result v s = Some (s\<lparr>result_queue := [v], k_have_new_result := True\<rparr>)"
proof (cases "result_queue s")
  case Nil
  then show ?thesis
    by (simp add: k_put_result_def queue_empty_def queue_put_def)
next
  case (Cons x xs)
  with assms have "xs = []" by simp
  with Cons show ?thesis
    by (simp add: k_put_result_def queue_empty_def queue_put_def get_nowait_def)
qed

lemma k_put_all_shape:
  "length (result_queue s) \<le> 1 \<Longrightarrow> vs \<noteq> [] \<Longrightarrow>
   k_put_all s vs = Some (s\<lparr>result_queue := [last vs], k_have_new_result := True\<rparr>)"
proof (induction vs arbitrary: s)
  case Nil
  then show ?case by simp
next
  case (Cons v vs)
  show ?case
  proof (cases "vs = []")
    case True
    with Cons.prems show ?thesis by (simp add: k_put_result_shape)
  next
    case False
    with Cons.prems Cons.IH [of "s\<lparr>result_queue := [v], k_have_new_result := True\<rparr>"]
    show ?thesis by (simp add: k_put_result_shape)
  qed
qed

lemma k_get_drained:
  "\<not> k_have_new_result s \<Longrightarrow> ((snd \<circ> k_get) ^^ n) s = s"
  by (induction n) (simp_all add: k_get_def)

lemma k_get_after_publish:
  assumes "k_have_new_result s" and "result_queue s = [v]"
  shows "fst (k_get (((snd \<circ> k_get) ^^ Suc n) s)) = None"
proof -
  have d: "\<not> k_have_new_result (snd (k_get s))"
    using assms by (simp add: k_get_def get_nowait_def)
  have "((snd \<circ> k_get) ^^ Suc n) s = ((snd \<circ> k_get) ^^ n) (snd (k_get s))"
    by (simp add: funpow_swap1)
  also have "\<dots> = snd (k_get s)"
    using d by (rule k_get_drained)
  finally show ?thesis
    using d by (simp add: k_get_def)
qed

text \<open>
  Claim C3.  After any non-empty run of publishes with no read in between, the next
  \<open>get\<close> returns the last published value and every later \<open>get\<close> before another
  publish returns \<open>None\<close>.  This holds for the result slot of \<open>Retrieve\<close> from any
  state, and for the one-place queue of \<open>KeyboardAsrServer\<close> from any state whose queue
  holds at most one item: there no publish blocks, and the queue holds exactly one
  unread item afterwards.
\<close>

theorem mailbox_latest_wins:
  assumes "vs \<noteq> []" and "ws \<noteq> []" and "length (result_queue k) \<le> 1"
  shows "fst (r_get (foldl (\<lambda>s v. r_put_result v s) r vs)) = last vs
       \<and> (\<forall>n. fst (r_get (((snd \<circ> r_get) ^^ Suc n) (foldl (\<lambda>s v. r_put_result v s) r vs))) = None)
       \<and> (\<exists>k'. k_put_all k ws = Some k'
              \<and> length (result_queue k') \<le> 1
              \<and> fst (k_get k') = Some (last ws)
              \<and> (\<forall>n. fst (k_get (((snd \<circ> k_get) ^^ Suc n) k')) = None))"
proof -
  let ?r' = "foldl (\<lambda>s v. r_put_result v s) r vs"
  let ?k' = "k\<lparr>result_queue := [last ws], k_have_new_result := True\<rparr>"
  have r1: "r_have_new_result ?r'" and r2: "r_result ?r' = last vs"
    using r_put_all_nonempty [OF assms(1), of r]
    by (metis retrieve.select_convs(3) retrieve.surjective retrieve.update_convs(3) retrieve.update_convs(4),
        metis retrieve.select_convs(4) retrieve.surjective retrieve.update_convs(3) retrieve.update_convs(4))
  have a: "fst (r_get ?r') = last vs"
    using r1 r2 by (simp add: r_get_def)
  have b: "\<forall>n. fst (r_get (((snd \<circ> r_get) ^^ Suc n) ?r')) = None"
    using r_get_after_publish [OF r1] by blast
  have k1: "k_put_all k ws = Some ?k'"
    using assms(2,3) by (simp add: k_put_all_shape)
  have k2: "fst (k_get ?k') = Some (last ws)"
    by (simp add: k_get_def get_nowait_def)
  have k3: "\<forall>n. fst (k_get (((snd \<circ> k_get) ^^ Suc n) ?k')) = None"
    using k_get_after_publish [of ?k' "last ws"] by simp
  have k4: "length (result_queue ?k') \<le> 1" by simp
  from a b k1 k2 k3 k4 show ?thesis by blast
qed

theorem mailbox_latest_wins_witness:
  "fst (r_get (foldl (\<lambda>s v. r_put_result v s)
          \<lparr>type_files = [], types = [], r_have_new_result = False, r_result = Some [],
            have_new_input = False, r_input = []\<rparr>
          [Some ''box'', None, Some ''pinch''])) = Some ''pinch''
   \<and> (\<exists>k'. k_put_all \<lparr>result_queue = [], k_have_new_result = False\<rparr> [''/box'', ''/pinch''] = Some k'
          \<and> fst (k_get k') = Some ''/pinch''
          \<and> fst (k_get (snd (k_get k'))) = None)"
proof -
  have h1: "[Some ''box'', None, Some ''pinch''] \<noteq> []" by simp
  have h2: "[''/box'', ''/pinch''] \<noteq> []" by simp
  have h3: "length (result_queue \<lparr>result_queue = [], k_have_new_result = False\<rparr>) \<le> 1" by simp
  from mailbox_latest_wins [OF h1 h2 h3,
      of "\<lparr>type_files = [], types = [], r_have_new_result = False, r_result = Some [],
            have_new_input = False, r_input = []\<rparr>"]
  obtain k' where
    a: "fst (r_get (foldl (\<lambda>s v. r_put_result v s)
          \<lparr>type_files = [], types = [], r_have_new_result = False, r_result = Some [],
            have_new_input = False, r_input = []\<rparr>
          [Some ''box'', None, Some ''pinch''])) = last [Some ''box'', None, Some ''pinch'']"
    and k: "k_put_all \<lparr>result_queue = [], k_have_new_result = False\<rparr> [''/box'', ''/pinch''] = Some k'"
    and g: "fst (k_get k') = Some (last [''/box'', ''/pinch''])"
    and n: "\<forall>n. fst (k_get (((snd \<circ> k_get) ^^ Suc n) k')) = None"
    by blast
  from n have "fst (k_get (((snd \<circ> k_get) ^^ Suc 0) k')) = None" by blast
  then have n0: "fst (k_get (snd (k_get k'))) = None" by simp
  from a have a': "fst (r_get (foldl (\<lambda>s v. r_put_result v s)
          \<lparr>type_files = [], types = [], r_have_new_result = False, r_result = Some [],
            have_new_input = False, r_input = []\<rparr>
          [Some ''box'', None, Some ''pinch''])) = Some ''pinch''" by simp
  from g have g': "fst (k_get k') = Some ''/pinch''" by simp
  from a' k g' n0 show ?thesis by blast
qed

section \<open>Properties of the save format, the pose synthesis and the flexion ratios\<close>

lemma inverse_index_eval:
  "argsort reorder_index = [9, 8, 10, 11, 5, 4, 6, 7, 1, 0, 2, 3, 12, 13, 14, 15]"
  unfolding argsort_def reorder_index_def by code_simp

lemma length16_explicit:
  assumes "length (p :: 'a list) = 16"
  obtains a0 a1 a2 a3 a4 a5 a6 a7 a8 a9 a10 a11 a12 a13 a14 a15
  where "p = [a0, a1, a2, a3, a4, a5, a6, a7, a8, a9, a10, a11, a12, a13, a14, a15]"
proof -
  from assms have "length p = Suc (Suc (Suc (Suc (Suc (Suc (Suc (Suc (Suc (Suc (Suc (Suc (Suc (Suc (Suc (Suc 0)))))))))))))))"
    by simp
  then show ?thesis
    using that by (auto simp: length_Suc_conv)
qed



lemma np_clip_unit: "0 \<le> 1 - np_clip a 0 1 \<and> 1 - np_clip a 0 1 \<le> 1"
  by (simp add: np_clip_def)

text \<open>
  Claim C9.  For every array of at least 21 joint positions the detection step publishes
  ratios, each of them one minus the clamped normalised wrist-to-fingertip length (the
  thumb's length taken on the second coordinate only), and each of the five lies in the
  closed interval from 0 to 1.
\<close>

theorem flexion_ratios_in_unit_interval:
  assumes "21 \<le> length joint_pos"
  shows "\<exists>r. finger_ratios joint_pos = Inr r
       \<and> thumb r = 1 - np_clip ((norm3 (0, fst (snd (sub3 (joint_pos ! 4) (joint_pos ! 0))), 0) - 0.02) / (0.09 - 0.02)) 0 1
       \<and> index r = 1 - np_clip ((norm3 (sub3 (joint_pos ! 8) (joint_pos ! 0)) - 0.09) / (0.17 - 0.09)) 0 1
       \<and> middle r = 1 - np_clip ((norm3 (sub3 (joint_pos ! 12) (joint_pos ! 0)) - 0.09) / (0.18 - 0.09)) 0 1
       \<and> ring r = 1 - np_clip ((norm3 (sub3 (joint_pos ! 16) (joint_pos ! 0)) - 0.07) / (0.17 - 0.07)) 0 1
       \<and> pinky r = 1 - np_clip ((norm3 (sub3 (joint_pos ! 20) (joint_pos ! 0)) - 0.08) / (0.14 - 0.08)) 0 1
       \<and> 0 \<le> thumb r \<and> thumb r \<le> 1
       \<and> 0 \<le> index r \<and> index r \<le> 1
       \<and> 0 \<le> middle r \<and> middle r \<le> 1
       \<and> 0 \<le> ring r \<and> ring r \<le> 1
       \<and> 0 \<le> pinky r \<and> pinky r \<le> 1"
proof -
  from assms have n: "\<not> length joint_pos \<le> 20" by simp
  obtain x y z where t: "sub3 (joint_pos ! 4) (joint_pos ! 0) = (x, y, z)"
    by (cases "sub3 (joint_pos ! 4) (joint_pos ! 0)") auto
  show ?thesis
    unfolding finger_ratios_def Let_def using n np_clip_unit
    by (simp add: t)
qed

theorem flexion_ratios_in_unit_interval_witness:
  "\<exists>r. finger_ratios (replicate 21 (0, 0, 0)) = Inr r \<and> thumb r = 1 \<and> pinky r = 1 \<and> 0 \<le> index r \<and> index r \<le> 1"
proof -
  have h: "21 \<le> length (replicate 21 ((0, 0, 0) :: vec3))" by simp
  from flexion_ratios_in_unit_interval [OF h]
  obtain r where "finger_ratios (replicate 21 (0, 0, 0)) = Inr r"
    and "thumb r = 1 - np_clip ((norm3 (0, fst (snd (sub3 (replicate 21 (0, 0, 0) ! 4) (replicate 21 (0, 0, 0) ! 0))), 0) - 0.02) / (0.09 - 0.02)) 0 1"
    and "pinky r = 1 - np_clip ((norm3 (sub3 (replicate 21 (0, 0, 0) ! 20) (replicate 21 (0, 0, 0) ! 0)) - 0.08) / (0.14 - 0.08)) 0 1"
    and "0 \<le> index r" and "index r \<le> 1"
    by blast
  then show ?thesis
    by (simp add: sub3_def norm3_def np_clip_def)
qed


text \<open>
  Claim C8.  For open and close poses of 16 joints and any flexion ratios, the target pose
  is defined and equals on every joint the interpolation
  \<open>open * (1 - r) + close * r\<close>, where \<open>r\<close> is the index ratio on joints 0 to 3,
  the middle ratio on joints 4 to 7, the ring ratio on joints 8 to 11 and the thumb ratio
  on joints 12 to 15.  The witness is the instance of the claim: open all zero, close all
  one, thumb ratio 1 and the others 0 give 1 on joints 12 to 15 and 0 elsewhere.
\<close>

theorem pose_synthesis_interpolates:
  assumes "length (open_pos s) = 16" and "length (close_pos s) = 16"
  shows "\<exists>tp. type_pos s ratio = Inr tp \<and> length tp = 16
       \<and> (\<forall>i<16. tp ! i =
              open_pos s ! i * (1 - (if i < 4 then index ratio else if i < 8 then middle ratio
                                     else if i < 12 then ring ratio else thumb ratio))
            + close_pos s ! i * (if i < 4 then index ratio else if i < 8 then middle ratio
                                 else if i < 12 then ring ratio else thumb ratio))"
proof -
  obtain a0 a1 a2 a3 a4 a5 a6 a7 a8 a9 a10 a11 a12 a13 a14 a15
    where o: "open_pos s = [a0, a1, a2, a3, a4, a5, a6, a7, a8, a9, a10, a11, a12, a13, a14, a15]"
    using assms(1) by (rule length16_explicit)
  obtain b0 b1 b2 b3 b4 b5 b6 b7 b8 b9 b10 b11 b12 b13 b14 b15
    where c: "close_pos s = [b0, b1, b2, b3, b4, b5, b6, b7, b8, b9, b10, b11, b12, b13, b14, b15]"
    using assms(2) by (rule length16_explicit)
  have tp: "type_pos s ratio = Inr
     [a0 * (1 - index ratio) + b0 * index ratio, a1 * (1 - index ratio) + b1 * index ratio,
      a2 * (1 - index ratio) + b2 * index ratio, a3 * (1 - index ratio) + b3 * index ratio,
      a4 * (1 - middle ratio) + b4 * middle ratio, a5 * (1 - middle ratio) + b5 * middle ratio,
      a6 * (1 - middle ratio) + b6 * middle ratio, a7 * (1 - middle ratio) + b7 * middle ratio,
      a8 * (1 - ring ratio) + b8 * ring ratio, a9 * (1 - ring ratio) + b9 * ring ratio,
      a10 * (1 - ring ratio) + b10 * ring ratio, a11 * (1 - ring ratio) + b11 * ring ratio,
      a12 * (1 - thumb ratio) + b12 * thumb ratio, a13 * (1 - thumb ratio) + b13 * thumb ratio,
      a14 * (1 - thumb ratio) + b14 * thumb ratio, a15 * (1 - thumb ratio) + b15 * thumb ratio]"
    by (simp add: type_pos_def masked_interp_def bc2_def bind_e_def o c
          thumb_mask_def index_mask_def middle_mask_def ring_mask_def eval_nat_numeral)
  have nth: "\<And>i. i < 16 \<Longrightarrow> i \<in> {0, 1, 2, 3, 4, 5, 6, 7, 8, 9, 10, 11, 12, 13, 14, 15 :: nat}"
    by (simp, arith)
  let ?tp = "[a0 * (1 - index ratio) + b0 * index ratio, a1 * (1 - index ratio) + b1 * index ratio,
      a2 * (1 - index ratio) + b2 * index ratio, a3 * (1 - index ratio) + b3 * index ratio,
      a4 * (1 - middle ratio) + b4 * middle ratio, a5 * (1 - middle ratio) + b5 * middle ratio,
      a6 * (1 - middle ratio) + b6 * middle ratio, a7 * (1 - middle ratio) + b7 * middle ratio,
      a8 * (1 - ring ratio) + b8 * ring ratio, a9 * (1 - ring ratio) + b9 * ring ratio,
      a10 * (1 - ring ratio) + b10 * ring ratio, a11 * (1 - ring ratio) + b11 * ring ratio,
      a12 * (1 - thumb ratio) + b12 * thumb ratio, a13 * (1 - thumb ratio) + b13 * thumb ratio,
      a14 * (1 - thumb ratio) + b14 * thumb ratio, a15 * (1 - thumb ratio) + b15 * thumb ratio]"
  have len: "length ?tp = 16" by simp
  have pt: "?tp ! i =
              open_pos s ! i * (1 - (if i < 4 then index ratio else if i < 8 then middle ratio
                                     else if i < 12 then ring ratio else thumb ratio))
            + close_pos s ! i * (if i < 4 then index ratio else if i < 8 then middle ratio
                                 else if i < 12 then ring ratio else thumb ratio)"
    if "i < 16" for i
    using nth [OF that] unfolding o c by auto
  from tp len pt show ?thesis by blast
qed

theorem pose_synthesis_interpolates_witness:
  "type_pos \<lparr>category = ''leap'', curr_type = ''box'',
             open_pos = replicate 16 0, close_pos = replicate 16 1\<rparr>
            \<lparr>thumb = 1, index = 0, middle = 0, ring = 0, pinky = 0\<rparr>
     = Inr (replicate 12 0 @ replicate 4 1)"
proof -
  let ?s = "\<lparr>category = ''leap'', curr_type = ''box'',
             open_pos = replicate 16 (0::real), close_pos = replicate 16 (1::real)\<rparr>"
  let ?r = "\<lparr>thumb = 1, index = 0, middle = 0, ring = 0, pinky = 0\<rparr>"
  have h1: "length (open_pos ?s) = 16" and h2: "length (close_pos ?s) = 16" by simp_all
  from pose_synthesis_interpolates [OF h1 h2, of ?r]
  obtain tp where e: "type_pos ?s ?r = Inr tp" and l: "length tp = 16"
    and v: "\<forall>i<16. tp ! i = (if i < 12 then 0 else 1)"
    by auto
  have "tp = replicate 12 0 @ replicate 4 1"
  proof (rule nth_equalityI)
    show "length tp = length (replicate 12 (0::real) @ replicate 4 1)" using l by simp
  next
    fix i assume "i < length tp"
    with l have i: "i < 16" by simp
    with v show "tp ! i = (replicate 12 0 @ replicate 4 1) ! i"
      by (simp add: nth_append)
  qed
  with e show ?thesis by simp
qed

lemma decode_after_encode:
  assumes "length p = 16"
  shows "\<exists>saved. get_current_leap_pos p = Inr saved
       \<and> length saved = 16
       \<and> decode_saved saved = Inr (map (\<lambda>x. fl64 (fl64 (x - fl64 3.14159) + fl64 3.14159)) p)
       \<and> rt_decode_saved saved = Inr (map (\<lambda>x. fl64 (fl64 (x - fl64 3.14159) + fl64 3.14159)) p)"
proof -
  obtain a0 a1 a2 a3 a4 a5 a6 a7 a8 a9 a10 a11 a12 a13 a14 a15
    where p: "p = [a0, a1, a2, a3, a4, a5, a6, a7, a8, a9, a10, a11, a12, a13, a14, a15]"
    using assms by (rule length16_explicit)
  define e where "e = (\<lambda>x. fl64 (x - fl64 3.14159))"
  have enc: "get_current_leap_pos p = Inr
     [e a9, e a8, e a10, e a11, e a5, e a4, e a6, e a7,
      e a1, e a0, e a2, e a3, e a12, e a13, e a14, e a15]"
    by (simp add: p e_def get_current_leap_pos_def inverse_index_eval take_idx_def eval_nat_numeral)
  have dec: "decode_saved
     [e a9, e a8, e a10, e a11, e a5, e a4, e a6, e a7,
      e a1, e a0, e a2, e a3, e a12, e a13, e a14, e a15]
     = Inr (map (\<lambda>x. fl64 (e x + fl64 3.14159)) p)"
    by (simp add: p decode_saved_def inverse_index_def inverse_index_eval put_idx_def bind_e_def
          eval_nat_numeral)
  have rdec: "rt_decode_saved
     [e a9, e a8, e a10, e a11, e a5, e a4, e a6, e a7,
      e a1, e a0, e a2, e a3, e a12, e a13, e a14, e a15]
     = Inr (map (\<lambda>x. fl64 (e x + fl64 3.14159)) p)"
    by (simp add: p rt_decode_saved_def inverse_index_def inverse_index_eval put_idx_def bind_e_def
          eval_nat_numeral)
  from enc dec rdec show ?thesis
    unfolding e_def by simp
qed

lemma encode_after_decode:
  assumes "length v = 16"
  shows "\<exists>pos. decode_saved v = Inr pos
       \<and> rt_decode_saved v = Inr pos
       \<and> length pos = 16
       \<and> get_current_leap_pos pos = Inr (map (\<lambda>x. fl64 (fl64 (x + fl64 3.14159) - fl64 3.14159)) v)"
proof -
  obtain a0 a1 a2 a3 a4 a5 a6 a7 a8 a9 a10 a11 a12 a13 a14 a15
    where v: "v = [a0, a1, a2, a3, a4, a5, a6, a7, a8, a9, a10, a11, a12, a13, a14, a15]"
    using assms by (rule length16_explicit)
  define d where "d = (\<lambda>x. fl64 (x + fl64 3.14159))"
  have dec: "decode_saved v = Inr
     [d a9, d a8, d a10, d a11, d a5, d a4, d a6, d a7,
      d a1, d a0, d a2, d a3, d a12, d a13, d a14, d a15]"
    by (simp add: v d_def decode_saved_def inverse_index_def inverse_index_eval put_idx_def
          bind_e_def eval_nat_numeral)
  have rdec: "rt_decode_saved v = Inr
     [d a9, d a8, d a10, d a11, d a5, d a4, d a6, d a7,
      d a1, d a0, d a2, d a3, d a12, d a13, d a14, d a15]"
    by (simp add: v d_def rt_decode_saved_def inverse_index_def inverse_index_eval put_idx_def
          bind_e_def eval_nat_numeral)
  have enc: "get_current_leap_pos
     [d a9, d a8, d a10, d a11, d a5, d a4, d a6, d a7,
      d a1, d a0, d a2, d a3, d a12, d a13, d a14, d a15]
     = Inr (map (\<lambda>x. fl64 (d x - fl64 3.14159)) v)"
    by (simp add: v get_current_leap_pos_def inverse_index_eval take_idx_def eval_nat_numeral)
  from dec rdec enc show ?thesis
    unfolding d_def by simp
qed

text \<open>
  Claim C10, as the code has it.  For every vector \<open>p\<close> of 16 hardware joint positions
  the recorder's encoding is defined, and both decoders (the one of the player and the one
  nested in the runner's \<open>load_type\<close>) return on it the joints in the order of \<open>p\<close>,
  each with the binary64 value of \<open>(p_i - 3.14159) + 3.14159\<close>: the two permutations
  cancel exactly, the offset up to the rounding of the two operations.  In the other
  direction, for every saved vector \<open>v\<close> of 16 entries the encoding of its decoding has
  the entries in the order of \<open>v\<close>, each with the binary64 value of
  \<open>(v_i + 3.14159) - 3.14159\<close>.
\<close>

theorem save_format_roundtrip_up_to_rounding:
  assumes "length p = 16" and "length v = 16"
  shows "(\<exists>saved. get_current_leap_pos p = Inr saved
            \<and> length saved = 16
            \<and> decode_saved saved = Inr (map (\<lambda>x. fl64 (fl64 (x - fl64 3.14159) + fl64 3.14159)) p)
            \<and> rt_decode_saved saved = Inr (map (\<lambda>x. fl64 (fl64 (x - fl64 3.14159) + fl64 3.14159)) p))
       \<and> (\<exists>pos. decode_saved v = Inr pos
            \<and> rt_decode_saved v = Inr pos
            \<and> length pos = 16
            \<and> get_current_leap_pos pos
                 = Inr (map (\<lambda>x. fl64 (fl64 (x + fl64 3.14159) - fl64 3.14159)) v))"
  using decode_after_encode [OF assms(1)] encode_after_decode [OF assms(2)] by blast

theorem save_format_roundtrip_up_to_rounding_witness:
  "(\<exists>saved. get_current_leap_pos (replicate 16 (fl64 0.1)) = Inr saved
       \<and> decode_saved saved = Inr (replicate 16 (225179981368525 / 2 ^ 51)))
   \<and> (\<exists>pos. decode_saved (replicate 16 (fl64 0.1)) = Inr pos
       \<and> get_current_leap_pos pos = Inr (replicate 16 (225179981368525 / 2 ^ 51)))"
proof -
  have h: "length (replicate 16 (fl64 0.1)) = 16" by simp
  have a: "fl64 (fl64 (fl64 0.1 - fl64 3.14159) + fl64 3.14159) = 225179981368525 / 2 ^ 51"
    by (simp only: fl64_tenth fl64_offset fl64_tenth_minus_offset fl64_back_plus_offset)
  have b: "fl64 (fl64 (fl64 0.1 + fl64 3.14159) - fl64 3.14159) = 225179981368525 / 2 ^ 51"
    by (simp only: fl64_tenth fl64_offset fl64_tenth_plus_offset fl64_back_minus_offset)
  from save_format_roundtrip_up_to_rounding [OF h h]
  show ?thesis
    by (simp only: map_replicate a b) blast
qed

text \<open>
  The claim as stated fails: the binary64 number nearest to 0.1 on every joint comes
  back from the decoder as \<open>225179981368525 / 2 ^ 51\<close>, that is
  0.10000000000000009.
\<close>

theorem save_format_roundtrip_counterexample:
  "bind_e (get_current_leap_pos (replicate 16 (fl64 0.1))) decode_saved
     = Inr (replicate 16 (225179981368525 / 2 ^ 51))
   \<and> fl64 0.1 = 3602879701896397 / 2 ^ 55
   \<and> bind_e (get_current_leap_pos (replicate 16 (fl64 0.1))) decode_saved
     \<noteq> Inr (replicate 16 (fl64 0.1))"
proof -
  have h: "length (replicate 16 (fl64 0.1)) = 16" by simp
  have a: "fl64 (fl64 (fl64 0.1 - fl64 3.14159) + fl64 3.14159) = 225179981368525 / 2 ^ 51"
    by (simp only: fl64_tenth fl64_offset fl64_tenth_minus_offset fl64_back_plus_offset)
  from decode_after_encode [OF h]
  have r: "bind_e (get_current_leap_pos (replicate 16 (fl64 0.1))) decode_saved
     = Inr (replicate 16 (225179981368525 / 2 ^ 51))"
    by (auto simp only: bind_e_def sum.case map_replicate a)
  have ne: "(225179981368525 / 2 ^ 51 :: real) \<noteq> 3602879701896397 / 2 ^ 55" by simp
  have "replicate 16 (225179981368525 / 2 ^ 51 :: real) \<noteq> replicate 16 (3602879701896397 / 2 ^ 55)"
    using ne by (simp add: replicate_eq_replicate)
  with r show ?thesis
    by (simp only: fl64_tenth) simp
qed

section \<open>Properties of the free-drag mode\<close>

lemma iter_preserves:
  "curr_lim (update_goal_pos_iter inp s) = curr_lim s"
  "original_curr_lim (update_goal_pos_iter inp s) = original_curr_lim s"
  "motors (update_goal_pos_iter inp s) = motors s"
  "dxl_curr_lim (update_goal_pos_iter inp s) = dxl_curr_lim s"
  "free_drag_active (update_goal_pos_iter inp s) = free_drag_active s"
  by (auto simp: update_goal_pos_iter_def split: prod.splits sum.splits)

lemma iters_preserve:
  "curr_lim (foldl (\<lambda>s inp. update_goal_pos_iter inp s) s inps) = curr_lim s
 \<and> original_curr_lim (foldl (\<lambda>s inp. update_goal_pos_iter inp s) s inps) = original_curr_lim s
 \<and> motors (foldl (\<lambda>s inp. update_goal_pos_iter inp s) s inps) = motors s
 \<and> dxl_curr_lim (foldl (\<lambda>s inp. update_goal_pos_iter inp s) s inps) = dxl_curr_lim s
 \<and> free_drag_active (foldl (\<lambda>s inp. update_goal_pos_iter inp s) s inps) = free_drag_active s"
  by (induction inps arbitrary: s) (simp_all add: iter_preserves)

definition worker_inv :: "leap_node \<Rightarrow> bool" where
  "worker_inv s = (workers s = (if free_drag_thread s = Some True then 1 else 0))"

lemma iter_worker_inv: "worker_inv s \<Longrightarrow> worker_inv (update_goal_pos_iter inp s)"
  by (auto simp: worker_inv_def update_goal_pos_iter_def split: prod.splits sum.splits)

lemma iters_worker_inv:
  "worker_inv s \<Longrightarrow> worker_inv (foldl (\<lambda>s inp. update_goal_pos_iter inp s) s inps)"
  by (induction inps arbitrary: s) (simp_all add: iter_worker_inv)

lemma free_drag_cycle:
  fixes s :: leap_node and cur cur' pos :: vec and inps :: "(vec \<times> vec \<times> real) list"
  assumes idle: "\<not> free_drag_active s" and none: "workers s = 0"
  defines "s1 \<equiv> enable_free_drag_mode cur s"
  defines "sk \<equiv> foldl (\<lambda>s inp. update_goal_pos_iter inp s) s1 inps"
  defines "s2 \<equiv> disable_free_drag_mode pos sk"
  shows "curr_lim s1 = 30
       \<and> dxl_curr_lim s1 = replicate (length (motors s)) 30
       \<and> workers s1 = 1
       \<and> enable_free_drag_mode cur' sk = sk
       \<and> workers sk \<le> 1
       \<and> workers s2 = 0
       \<and> \<not> free_drag_active s2
       \<and> curr_lim s2 = curr_lim s
       \<and> dxl_curr_lim s2 = replicate (length (motors s)) (curr_lim s)
       \<and> dxl_desired_pos s2 = dxl_desired_pos sk @ [pos]"
proof -
  have e: "s1 = s\<lparr>filtered_current := cur, original_curr_lim := curr_lim s, curr_lim := 30,
                   dxl_curr_lim := replicate (length (motors s)) 30,
                   free_drag_active := True, free_drag_thread := Some True, workers := 1\<rparr>"
    using idle none by (simp add: s1_def enable_free_drag_mode_def)
  have inv1: "worker_inv s1" by (simp add: e worker_inv_def)
  have invk: "worker_inv sk" unfolding sk_def using inv1 by (rule iters_worker_inv)
  have pk: "curr_lim sk = 30" "original_curr_lim sk = curr_lim s" "motors sk = motors s"
    "free_drag_active sk"
    using iters_preserve [of s1 inps] unfolding sk_def [symmetric] by (simp_all add: e)
  have a: "curr_lim s1 = 30" "dxl_curr_lim s1 = replicate (length (motors s)) 30" "workers s1 = 1"
    by (simp_all add: e)
  have b: "enable_free_drag_mode cur' sk = sk"
    using pk(4) by (simp add: enable_free_drag_mode_def)
  have c: "workers sk \<le> 1"
    using invk by (simp add: worker_inv_def split: if_splits)
  have d: "workers s2 = 0" "\<not> free_drag_active s2" "curr_lim s2 = curr_lim s"
    "dxl_curr_lim s2 = replicate (length (motors s)) (curr_lim s)"
    "dxl_desired_pos s2 = dxl_desired_pos sk @ [pos]"
    using pk invk
    by (auto simp: s2_def disable_free_drag_mode_def Let_def worker_inv_def
             split: option.splits if_splits)
  from a b c d show ?thesis by simp
qed

text \<open>
  Claim C7.  From a node that is not in free-drag mode and has no worker running:
  enabling writes the current limit 30 to every motor and starts one worker; however
  many loop iterations follow, at most one worker runs and a second enable changes
  nothing; disabling then leaves no worker, restores the current limit of before the
  enable in the node and on the bus, and issues one more position write, equal to the
  position read at that moment.
\<close>

theorem free_drag_enable_disable:
  assumes "\<not> free_drag_active s" and "workers s = 0"
  shows "(let s1 = enable_free_drag_mode cur s;
              sk = foldl (\<lambda>s inp. update_goal_pos_iter inp s) s1 inps;
              s2 = disable_free_drag_mode pos sk
          in curr_lim s1 = 30
           \<and> dxl_curr_lim s1 = replicate (length (motors s)) 30
           \<and> workers s1 = 1
           \<and> enable_free_drag_mode cur' sk = sk
           \<and> workers sk \<le> 1
           \<and> workers s2 = 0
           \<and> \<not> free_drag_active s2
           \<and> curr_lim s2 = curr_lim s
           \<and> dxl_curr_lim s2 = replicate (length (motors s)) (curr_lim s)
           \<and> dxl_desired_pos s2 = dxl_desired_pos sk @ [pos])"
  unfolding Let_def using free_drag_cycle [OF assms] by blast


theorem free_drag_enable_disable_witness:
  "curr_lim (enable_free_drag_mode (replicate 16 0)
      \<lparr>curr_lim = 150, original_curr_lim = 150, curr_pos = replicate 16 3,
        filtered_current = [], free_drag_active = False, free_drag_thread = None, workers = 0,
        motors = [0..<16], dxl_curr_lim = replicate 16 150, dxl_desired_pos = []\<rparr>) = 30
   \<and> curr_lim (disable_free_drag_mode (replicate 16 2)
        (foldl (\<lambda>s inp. update_goal_pos_iter inp s)
          (enable_free_drag_mode (replicate 16 0)
            \<lparr>curr_lim = 150, original_curr_lim = 150, curr_pos = replicate 16 3,
              filtered_current = [], free_drag_active = False, free_drag_thread = None, workers = 0,
              motors = [0..<16], dxl_curr_lim = replicate 16 150, dxl_desired_pos = []\<rparr>)
          [(replicate 16 2, replicate 16 (- 1), 0)])) = 150
   \<and> dxl_curr_lim (disable_free_drag_mode (replicate 16 2)
        (foldl (\<lambda>s inp. update_goal_pos_iter inp s)
          (enable_free_drag_mode (replicate 16 0)
            \<lparr>curr_lim = 150, original_curr_lim = 150, curr_pos = replicate 16 3,
              filtered_current = [], free_drag_active = False, free_drag_thread = None, workers = 0,
              motors = [0..<16], dxl_curr_lim = replicate 16 150, dxl_desired_pos = []\<rparr>)
          [(replicate 16 2, replicate 16 (- 1), 0)])) = replicate 16 150"
proof -
  let ?s = "\<lparr>curr_lim = 150, original_curr_lim = 150, curr_pos = replicate 16 3,
        filtered_current = [], free_drag_active = False, free_drag_thread = None, workers = 0,
        motors = [0..<16], dxl_curr_lim = replicate 16 150, dxl_desired_pos = []\<rparr>"
  have h1: "\<not> free_drag_active ?s" and h2: "workers ?s = 0" by simp_all
  from free_drag_enable_disable [OF h1 h2, of "replicate 16 0"
      "[(replicate 16 2, replicate 16 (- 1), 0)]" "replicate 16 2"]
  show ?thesis
    unfolding Let_def by simp
qed

text \<open>
  Claim C6.  The loop compares the signed error with the threshold plus margin, not its
  absolute value: with measured position 0, last commanded target 0.2, velocity -1 and
  a previous cycle of 0.01 s, the error has absolute value 0.2, above 0.05 + 0.05, and
  the projected step is \<open>velocity * loop_time = -0.01\<close>, not the fast step
  \<open>velocity * loop_time * 5\<close>.
\<close>

theorem delta_pos_negative_error_slow_gain:
  "bind_e (bc2 (-) (replicate 16 0) (replicate 16 0.2))
      (\<lambda>pos_error. delta_pos pos_error (replicate 16 (- 1)) 0.01)
     = Inr (replicate 16 (- 0.01))
   \<and> \<bar>(0::real) - 0.2\<bar> > 0.05 + 0.05
   \<and> (- 1) * 0.01 * 5 \<noteq> (- 0.01 :: real)"
  by (simp add: bind_e_def bc2_def delta_pos_def thresholds_def eval_nat_numeral)

section \<open>Properties of profile switching\<close>

lemma change_type_failure:
  assumes "load_type fs pyfloat current_dir (s\<lparr>curr_type := new_type\<rparr>) new_type = Inl e"
  shows "change_type fs pyfloat current_dir new_type s = (Some e, s\<lparr>curr_type := new_type\<rparr>)"
  using assms by (simp add: change_type_def)

text \<open>
  Claim C2.  A direct switch to a gesture whose file is missing, or whose first line does
  not parse to 16 floats, fails, and the open and close poses stay as they were; but
  \<open>change_type\<close> has assigned \<open>curr_type\<close> before loading, so the current type name
  is the requested one afterwards, and the command is handed on to the retriever.
\<close>

theorem failed_switch_renames_active_gesture:
  "command_step (\<lambda>p. None) pyfloat ''/app'' ''/nosuch''
      \<lparr>category = ''leap'', curr_type = ''box'', open_pos = replicate 16 0, close_pos = replicate 16 1\<rparr>
     = (\<lparr>category = ''leap'', curr_type = ''nosuch'', open_pos = replicate 16 0, close_pos = replicate 16 1\<rparr>,
        Some ''/nosuch'')
   \<and> command_step (\<lambda>p. if p = ''/app/TypeLibrary/leap/bad.txt'' then Some ''[0, 0, 0]'' else None)
        pyfloat ''/app'' ''/bad''
      \<lparr>category = ''leap'', curr_type = ''box'', open_pos = replicate 16 0, close_pos = replicate 16 1\<rparr>
     = (\<lparr>category = ''leap'', curr_type = ''bad'', open_pos = replicate 16 0, close_pos = replicate 16 1\<rparr>,
        Some ''/bad'')"
proof -
  have p: "parse_line pyfloat ''[0, 0, 0]'' = Inl ValueError"
    by (simp add: parse_line_def py_strip_def strip_chars_def is_space_def py_split_def
          replace_char_def Let_def)
  show ?thesis
    by (simp add: command_step_def change_type_def load_type_def path_join_def readline_def
          bind_e_def p)
qed


lemma parse_line_wellformed_example:
  "parse_line (\<lambda>t. if t = ''0.5'' then Some 0.5 else None)
     ('' [0.5, 0.5 0.5,0.5 0.5 0.5 0.5 0.5 0.5 0.5 0.5 0.5 0.5 0.5 0.5 0.5]'' @ [CHR 0x0A])
   = Inr (replicate 16 0.5)"
  by (simp add: parse_line_def py_strip_def strip_chars_def is_space_def py_split_def
        replace_char_def Let_def eval_nat_numeral)

section \<open>Properties of the voice segmentation\<close>

lemma feed_append:
  "feed cfg (xs @ ys) s = bind_e (feed cfg xs s) (feed cfg ys)"
  by (induction xs arbitrary: s) (auto simp: bind_e_def split: sum.splits)

lemma feed_voiced_more:
  assumes "list_all (\<lambda>ev. \<not> is_silence cfg (snd ev)) vs"
    and "voice_detected s"
  shows "feed cfg vs s =
    Inr (s\<lparr>current_recording := current_recording s @ map snd vs,
            silence_start_time := (if vs = [] then silence_start_time s else 0)\<rparr>)"
  using assms
proof (induction vs arbitrary: s)
  case Nil
  then show ?case by simp
next
  case (Cons ev vs)
  obtain t b where ev: "ev = (t, b)" by (cases ev)
  let ?s1 = "s\<lparr>current_recording := current_recording s @ [b], silence_start_time := 0\<rparr>"
  from Cons.prems ev have cb: "audio_callback cfg (t, b) s = Inr ?s1"
    by (simp add: audio_callback_def)
  have v: "voice_detected ?s1" using Cons.prems by simp
  from Cons.prems have rest: "list_all (\<lambda>ev. \<not> is_silence cfg (snd ev)) vs" by simp
  show ?case
    using Cons.IH [OF rest v] by (simp add: cb bind_e_def ev)
qed

lemma feed_voiced_from_idle:
  assumes "list_all (\<lambda>ev. \<not> is_silence cfg (snd ev)) vs" and "vs \<noteq> []"
    and "\<not> voice_detected s"
  shows "feed cfg vs s =
    Inr (s\<lparr>voice_detected := True, voice_start_time := fst (hd vs), silence_start_time := 0,
            current_recording := current_recording s @ map snd vs\<rparr>)"
proof -
  from assms(2) obtain ev rest where vs: "vs = ev # rest" by (cases vs) auto
  obtain t b where ev: "ev = (t, b)" by (cases ev)
  let ?s1 = "s\<lparr>voice_detected := True, voice_start_time := t, silence_start_time := 0,
                 current_recording := current_recording s @ [b]\<rparr>"
  from assms vs ev have cb: "audio_callback cfg (t, b) s = Inr ?s1"
    by (simp add: audio_callback_def)
  from assms(1) vs have r: "list_all (\<lambda>ev. \<not> is_silence cfg (snd ev)) rest" by simp
  have v: "voice_detected ?s1" by simp
  show ?thesis
    using feed_voiced_more [OF r v] by (simp add: vs ev cb bind_e_def)
qed

lemma feed_trailing:
  assumes "list_all (\<lambda>ev. is_silence cfg (snd ev) \<and> fst ev - t0 < MAX_SILENCE_DURATION cfg) pre"
    and "voice_detected s" and "silence_start_time s = t0" and "t0 \<noteq> 0"
  shows "feed cfg pre s = Inr (s\<lparr>current_recording := current_recording s @ map snd pre\<rparr>)"
  using assms
proof (induction pre arbitrary: s)
  case Nil
  then show ?case by simp
next
  case (Cons ev pre)
  obtain t b where ev: "ev = (t, b)" by (cases ev)
  let ?s1 = "s\<lparr>current_recording := current_recording s @ [b]\<rparr>"
  from Cons.prems ev have cb: "audio_callback cfg (t, b) s = Inr ?s1"
    by (simp add: audio_callback_def Let_def)
  from Cons.prems have r: "list_all (\<lambda>ev. is_silence cfg (snd ev) \<and> fst ev - t0 < MAX_SILENCE_DURATION cfg) pre"
    by simp
  have "feed cfg pre ?s1 = Inr (?s1\<lparr>current_recording := current_recording ?s1 @ map snd pre\<rparr>)"
    using Cons.prems by (intro Cons.IH [OF r]) simp_all
  then show ?case
    by (simp add: cb bind_e_def ev)
qed

lemma feed_idle_silent:
  assumes "list_all (\<lambda>ev. is_silence cfg (snd ev)) post" and "\<not> voice_detected s"
  shows "feed cfg post s = Inr s"
  using assms
  by (induction post arbitrary: s) (auto simp: audio_callback_def bind_e_def)


lemma callback_flush:
  assumes "voice_detected s" and "is_silence cfg b"
    and "silence_start_time s = t0 \<and> t0 \<noteq> 0 \<or> silence_start_time s = 0 \<and> t = t0"
    and "MAX_SILENCE_DURATION cfg \<le> t - t0"
    and "0 < RATE cfg" and "current_recording s \<noteq> []"
    and "q = (if MIN_AUDIO_LENGTH cfg \<le> real (length (concat (current_recording s))) / real (RATE cfg)
              then [concat (current_recording s)] else [])"
  shows "audio_callback cfg (t, b) s =
    Inr (s\<lparr>audio_queue := audio_queue s @ q,
            current_recording := [], voice_detected := False, silence_start_time := 0\<rparr>)"
  using assms by (auto simp: audio_callback_def Let_def bind_e_def)

lemma callback_first_silent:
  assumes "voice_detected s" and "is_silence cfg b" and "silence_start_time s = 0"
    and "0 < MAX_SILENCE_DURATION cfg"
  shows "audio_callback cfg (t, b) s =
    Inr (s\<lparr>silence_start_time := t, current_recording := current_recording s @ [b]\<rparr>)"
  using assms by (auto simp: audio_callback_def Let_def bind_e_def)

lemma feed_silence_then_flush:
  assumes v: "voice_detected s" and z: "silence_start_time s = 0"
    and rec: "current_recording s \<noteq> []" and rate: "0 < RATE cfg"
    and t0: "fst (hd (pre @ [trig])) \<noteq> 0"
    and pre: "list_all (\<lambda>ev. is_silence cfg (snd ev)
                 \<and> fst ev - fst (hd (pre @ [trig])) < MAX_SILENCE_DURATION cfg) pre"
    and trig: "is_silence cfg (snd trig)"
      "MAX_SILENCE_DURATION cfg \<le> fst trig - fst (hd (pre @ [trig]))"
    and q: "q = (if MIN_AUDIO_LENGTH cfg
                    \<le> real (length (concat (current_recording s @ map snd pre))) / real (RATE cfg)
               then [concat (current_recording s @ map snd pre)] else [])"
  shows "feed cfg (pre @ [trig]) s =
    Inr (s\<lparr>audio_queue := audio_queue s @ q,
            current_recording := [], voice_detected := False, silence_start_time := 0\<rparr>)"
proof (cases pre)
  case Nil
  obtain t b where tr: "trig = (t, b)" by (cases trig)
  from Nil tr t0 have tn: "t \<noteq> 0" by simp
  from Nil tr trig have sb: "is_silence cfg b" by simp
  from Nil tr trig(2) have m0: "MAX_SILENCE_DURATION cfg \<le> t - t" by simp
  have st: "silence_start_time s = t \<and> t \<noteq> 0 \<or> silence_start_time s = 0 \<and> t = t"
    using z by simp
  have q': "q = (if MIN_AUDIO_LENGTH cfg \<le> real (length (concat (current_recording s))) / real (RATE cfg)
              then [concat (current_recording s)] else [])"
    using q Nil by simp
  have "audio_callback cfg (t, b) s =
    Inr (s\<lparr>audio_queue := audio_queue s @ q,
            current_recording := [], voice_detected := False, silence_start_time := 0\<rparr>)"
    using v sb st m0 rate rec q' by (rule callback_flush)
  then show ?thesis
    by (simp add: Nil tr bind_e_def)
next
  case (Cons e0 rest)
  obtain t0' b0 where e0: "e0 = (t0', b0)" by (cases e0)
  obtain t b where tr: "trig = (t, b)" by (cases trig)
  from Cons e0 have hd: "fst (hd (pre @ [trig])) = t0'" by simp
  from pre Cons e0 hd have s0: "is_silence cfg b0" and pos: "0 < MAX_SILENCE_DURATION cfg"
    and r: "list_all (\<lambda>ev. is_silence cfg (snd ev) \<and> fst ev - t0' < MAX_SILENCE_DURATION cfg) rest"
    by simp_all
  define s1 where "s1 = s\<lparr>silence_start_time := t0', current_recording := current_recording s @ [b0]\<rparr>"
  define s2 where "s2 = s1\<lparr>current_recording := current_recording s1 @ map snd rest\<rparr>"
  have c1: "audio_callback cfg (t0', b0) s = Inr s1"
    unfolding s1_def using v s0 z pos by (rule callback_first_silent)
  have c2: "feed cfg rest s1 = Inr s2"
    unfolding s2_def using v t0 hd by (intro feed_trailing [OF r]) (simp_all add: s1_def)
  have f2: "voice_detected s2" "silence_start_time s2 = t0'" "current_recording s2 \<noteq> []"
    "current_recording s2 = current_recording s @ map snd pre" "audio_queue s2 = audio_queue s"
    using v by (simp_all add: s2_def s1_def Cons e0)
  have st: "silence_start_time s2 = t0' \<and> t0' \<noteq> 0 \<or> silence_start_time s2 = 0 \<and> t = t0'"
    using f2(2) t0 hd by simp
  have sb: "is_silence cfg b" using trig(1) tr by simp
  have mx: "MAX_SILENCE_DURATION cfg \<le> t - t0'" using trig(2) tr hd by simp
  have q2: "q = (if MIN_AUDIO_LENGTH cfg \<le> real (length (concat (current_recording s2))) / real (RATE cfg)
              then [concat (current_recording s2)] else [])"
    unfolding f2(4) by (rule q)
  have c3: "audio_callback cfg (t, b) s2 =
    Inr (s2\<lparr>audio_queue := audio_queue s2 @ q,
            current_recording := [], voice_detected := False, silence_start_time := 0\<rparr>)"
    using f2(1) sb st mx rate f2(3) q2 by (rule callback_flush)
  have fin: "s2\<lparr>audio_queue := audio_queue s2 @ q,
            current_recording := [], voice_detected := False, silence_start_time := 0\<rparr>
      = s\<lparr>audio_queue := audio_queue s @ q,
            current_recording := [], voice_detected := False, silence_start_time := 0\<rparr>"
    by (simp add: s2_def s1_def)
  have "feed cfg (pre @ [trig]) s = bind_e (audio_callback cfg (t0', b0) s) (feed cfg (rest @ [trig]))"
    by (simp add: Cons e0)
  also have "\<dots> = feed cfg (rest @ [trig]) s1"
    unfolding c1 by (simp add: bind_e_def)
  also have "\<dots> = bind_e (feed cfg rest s1) (feed cfg [trig])"
    by (rule feed_append)
  also have "\<dots> = feed cfg [trig] s2"
    unfolding c2 by (simp add: bind_e_def)
  also have "\<dots> = audio_callback cfg (t, b) s2"
    by (simp add: tr bind_e_def split: sum.splits)
  finally show ?thesis
    unfolding c3 fin .
qed

lemma is_silence_iff:
  assumes "0 \<le> SILENCE_THRESHOLD cfg" and "concat b \<noteq> []"
  shows "is_silence cfg b \<longleftrightarrow>
    (\<Sum>x\<leftarrow>concat b. (real_of_int x) ^ 2) / real (length (concat b)) < (SILENCE_THRESHOLD cfg) ^ 2"
proof -
  have "sqrt x < SILENCE_THRESHOLD cfg \<longleftrightarrow> x < (SILENCE_THRESHOLD cfg) ^ 2" for x
    using assms(1) by (metis abs_of_nonneg real_sqrt_abs real_sqrt_less_iff)
  then show ?thesis
    using assms(2) by (auto simp: is_silence_def calculate_volume_def Let_def)
qed

text \<open>
  Claim C1, as the code has it.  Start with nothing recorded; feed a non-empty run of
  voiced blocks \<open>vs\<close>, then silent blocks: \<open>pre\<close>, all arriving less than the
  max-silence duration after the first silent block, then a silent block \<open>trig\<close>
  arriving at least that long after it, then any silent blocks \<open>post\<close>.  The callback
  never fails, ends idle with an empty buffer, and has put on the recognition queue
  exactly one utterance, the blocks \<open>vs\<close> and \<open>pre\<close> joined, when the duration of
  that whole buffered span is at least the minimum audio length, and nothing otherwise.
  In particular one utterance is emitted whenever the voiced duration alone reaches the
  minimum.
\<close>

theorem segmenter_emits_by_buffered_span:
  assumes "0 < RATE cfg"
    and "\<not> voice_detected s" and "current_recording s = []"
    and "vs \<noteq> []" and "list_all (\<lambda>ev. \<not> is_silence cfg (snd ev)) vs"
    and "fst (hd (pre @ [trig])) \<noteq> 0"
    and "list_all (\<lambda>ev. is_silence cfg (snd ev)
                 \<and> fst ev - fst (hd (pre @ [trig])) < MAX_SILENCE_DURATION cfg) pre"
    and "is_silence cfg (snd trig)"
    and "MAX_SILENCE_DURATION cfg \<le> fst trig - fst (hd (pre @ [trig]))"
    and "list_all (\<lambda>ev. is_silence cfg (snd ev)) post"
  shows "\<exists>s'. feed cfg (vs @ pre @ trig # post) s = Inr s'
       \<and> \<not> voice_detected s' \<and> current_recording s' = []
       \<and> audio_queue s' = audio_queue s @
            (if MIN_AUDIO_LENGTH cfg
                  \<le> real (length (concat (map snd (vs @ pre)))) / real (RATE cfg)
             then [concat (map snd (vs @ pre))] else [])
       \<and> (MIN_AUDIO_LENGTH cfg \<le> real (length (concat (map snd vs))) / real (RATE cfg)
            \<longrightarrow> audio_queue s' = audio_queue s @ [concat (map snd (vs @ pre))])"
proof -
  define q where "q = (if MIN_AUDIO_LENGTH cfg
                  \<le> real (length (concat (map snd (vs @ pre)))) / real (RATE cfg)
             then [concat (map snd (vs @ pre))] else [])"
  define s1 where "s1 = s\<lparr>voice_detected := True, voice_start_time := fst (hd vs),
                 silence_start_time := 0, current_recording := current_recording s @ map snd vs\<rparr>"
  define s2 where "s2 = s1\<lparr>audio_queue := audio_queue s1 @ q, current_recording := [],
                 voice_detected := False, silence_start_time := 0\<rparr>"
  have a: "feed cfg vs s = Inr s1"
    unfolding s1_def using assms(5,4,2) by (rule feed_voiced_from_idle)
  have f1: "voice_detected s1" "silence_start_time s1 = 0" "current_recording s1 \<noteq> []"
    "current_recording s1 = map snd vs" "audio_queue s1 = audio_queue s"
    using assms(3,4) by (simp_all add: s1_def)
  have q1: "q = (if MIN_AUDIO_LENGTH cfg
                    \<le> real (length (concat (current_recording s1 @ map snd pre))) / real (RATE cfg)
               then [concat (current_recording s1 @ map snd pre)] else [])"
    unfolding f1(4) q_def by simp
  have b: "feed cfg (pre @ [trig]) s1 = Inr s2"
    unfolding s2_def
    using f1(1,2,3) assms(1,6,7,8,9) q1 by (rule feed_silence_then_flush)
  have f2: "\<not> voice_detected s2" "current_recording s2 = []" "audio_queue s2 = audio_queue s @ q"
    by (simp_all add: s2_def f1(5))
  have c: "feed cfg post s2 = Inr s2"
    using assms(10) f2(1) by (rule feed_idle_silent)
  have "feed cfg (vs @ pre @ trig # post) s = bind_e (feed cfg vs s) (feed cfg (pre @ trig # post))"
    by (rule feed_append)
  also have "\<dots> = feed cfg ((pre @ [trig]) @ post) s1"
    unfolding a by (simp add: bind_e_def)
  also have "\<dots> = bind_e (feed cfg (pre @ [trig]) s1) (feed cfg post)"
    by (rule feed_append)
  also have "\<dots> = Inr s2"
    unfolding b by (simp add: bind_e_def c)
  finally have d: "feed cfg (vs @ pre @ trig # post) s = Inr s2" .
  have mono: "real (length (concat (map snd vs))) / real (RATE cfg)
        \<le> real (length (concat (map snd (vs @ pre)))) / real (RATE cfg)"
    using assms(1) by (simp add: divide_right_mono)
  have e: "MIN_AUDIO_LENGTH cfg \<le> real (length (concat (map snd vs))) / real (RATE cfg)
       \<longrightarrow> q = [concat (map snd (vs @ pre))]"
    using mono unfolding q_def by auto
  show ?thesis
    using d f2 e unfolding q_def [symmetric] by blast
qed


theorem segmenter_emits_by_buffered_span_witness:
  "\<exists>s'. feed \<lparr>RATE = 4, SILENCE_THRESHOLD = 500, MIN_AUDIO_LENGTH = 0.5, MAX_SILENCE_DURATION = 2\<rparr>
          ([(10, [[1000]]), (10.25, [[- 900]])]
           @ [(10.5, [[0]]), (11.5, [[3]])] @ (12.5, [[0]]) # [(12.75, [[1]])])
          \<lparr>voice_detected = False, voice_start_time = 0, silence_start_time = 0,
            current_recording = [], audio_queue = []\<rparr> = Inr s'
      \<and> audio_queue s' = [[[1000], [- 900], [0], [3]]]"
proof -
  let ?cfg = "\<lparr>RATE = 4, SILENCE_THRESHOLD = 500, MIN_AUDIO_LENGTH = 0.5, MAX_SILENCE_DURATION = 2\<rparr>"
  let ?s = "\<lparr>voice_detected = False, voice_start_time = 0, silence_start_time = 0,
            current_recording = [], audio_queue = []\<rparr>"
  let ?vs = "[(10, [[1000]]), (10.25, [[- 900]])] :: (real \<times> block) list"
  let ?pre = "[(10.5, [[0]]), (11.5, [[3]])] :: (real \<times> block) list"
  let ?trig = "(12.5, [[0]]) :: real \<times> block"
  let ?post = "[(12.75, [[1]])] :: (real \<times> block) list"
  have h1: "0 < RATE ?cfg" by simp
  have h2: "\<not> voice_detected ?s" and h3: "current_recording ?s = []" by simp_all
  have h4: "?vs \<noteq> []" by simp
  have h5: "list_all (\<lambda>ev. \<not> is_silence ?cfg (snd ev)) ?vs"
    by (simp add: is_silence_iff)
  have h6: "fst (hd (?pre @ [?trig])) \<noteq> 0" by simp
  have h7: "list_all (\<lambda>ev. is_silence ?cfg (snd ev)
                 \<and> fst ev - fst (hd (?pre @ [?trig])) < MAX_SILENCE_DURATION ?cfg) ?pre"
    by (simp add: is_silence_iff)
  have h8: "is_silence ?cfg (snd ?trig)" by (simp add: is_silence_iff)
  have h9: "MAX_SILENCE_DURATION ?cfg \<le> fst ?trig - fst (hd (?pre @ [?trig]))" by simp
  have h10: "list_all (\<lambda>ev. is_silence ?cfg (snd ev)) ?post" by (simp add: is_silence_iff)
  from segmenter_emits_by_buffered_span [OF h1 h2 h3 h4 h5 h6 h7 h8 h9 h10]
  show ?thesis by simp blast
qed

text \<open>
  The claim as stated fails: at 4 samples per second with the default thresholds, one
  voiced block of a quarter second (below the minimum of half a second) followed by ten
  silent blocks a quarter second apart puts one utterance on the queue, the voiced block
  with the eight silent blocks buffered before the two seconds of silence had elapsed.
\<close>

theorem segmenter_short_voice_counterexample:
  "\<not> is_silence \<lparr>RATE = 4, SILENCE_THRESHOLD = 500, MIN_AUDIO_LENGTH = 0.5, MAX_SILENCE_DURATION = 2\<rparr> [[1000]]
   \<and> is_silence \<lparr>RATE = 4, SILENCE_THRESHOLD = 500, MIN_AUDIO_LENGTH = 0.5, MAX_SILENCE_DURATION = 2\<rparr> [[0]]
   \<and> real (length (concat [[[1000 :: int]]])) / real (RATE \<lparr>RATE = 4, SILENCE_THRESHOLD = 500, MIN_AUDIO_LENGTH = 0.5, MAX_SILENCE_DURATION = 2\<rparr>)
        < MIN_AUDIO_LENGTH \<lparr>RATE = 4, SILENCE_THRESHOLD = 500, MIN_AUDIO_LENGTH = 0.5, MAX_SILENCE_DURATION = 2\<rparr>
   \<and> feed \<lparr>RATE = 4, SILENCE_THRESHOLD = 500, MIN_AUDIO_LENGTH = 0.5, MAX_SILENCE_DURATION = 2\<rparr>
        [(10, [[1000]]),
         (10.25, [[0]]), (10.5, [[0]]), (10.75, [[0]]), (11, [[0]]),
         (11.25, [[0]]), (11.5, [[0]]), (11.75, [[0]]), (12, [[0]]),
         (12.25, [[0]]), (12.5, [[0]])]
        \<lparr>voice_detected = False, voice_start_time = 0, silence_start_time = 0,
          current_recording = [], audio_queue = []\<rparr>
     = Inr \<lparr>voice_detected = False, voice_start_time = 10, silence_start_time = 0,
            current_recording = [],
            audio_queue = [[[1000], [0], [0], [0], [0], [0], [0], [0], [0]]]\<rparr>"
proof -
  let ?cfg = "\<lparr>RATE = 4, SILENCE_THRESHOLD = 500, MIN_AUDIO_LENGTH = 0.5, MAX_SILENCE_DURATION = 2\<rparr>"
  have loud: "\<not> is_silence ?cfg [[1000]]" by (simp add: is_silence_iff)
  have quiet: "is_silence ?cfg [[0]]" by (simp add: is_silence_iff)
  show ?thesis
    using loud quiet by (simp add: audio_callback_def bind_e_def Let_def)
qed

section \<open>Properties of the intent resolution\<close>

lemma local_fold_best:
  assumes "foldl (\<lambda>(best, best_score) g.
              let s = local_score sm query g
              in if s > best_score then (get_id g, s) else (best, best_score))
           (b0, s0) ts = (b, s)"
  shows "s0 \<le> s
       \<and> (\<forall>g \<in> set ts. local_score sm query g \<le> s)
       \<and> ((b, s) = (b0, s0) \<or> (\<exists>g \<in> set ts. get_id g = b \<and> local_score sm query g = s))"
  using assms
proof (induction ts arbitrary: b0 s0)
  case Nil
  then show ?case by simp
next
  case (Cons t ts)
  show ?case
  proof (cases "local_score sm query t > s0")
    case True
    with Cons.prems have f: "foldl (\<lambda>(best, best_score) g.
              let s = local_score sm query g
              in if s > best_score then (get_id g, s) else (best, best_score))
           (get_id t, local_score sm query t) ts = (b, s)"
      by simp
    from Cons.IH [OF f] True show ?thesis by auto
  next
    case False
    with Cons.prems have f: "foldl (\<lambda>(best, best_score) g.
              let s = local_score sm query g
              in if s > best_score then (get_id g, s) else (best, best_score))
           (b0, s0) ts = (b, s)"
      by simp
    from Cons.IH [OF f] False show ?thesis by auto
  qed
qed

lemma local_retrieve_best:
  assumes "local_retrieve sm r query = (b, s)"
  shows "0 \<le> s
       \<and> (\<forall>g \<in> set (types r). local_score sm query g \<le> s)
       \<and> ((b, s) = (None, 0)
            \<or> (\<exists>g \<in> set (types r). get_id g = b \<and> local_score sm query g = s))"
  using local_fold_best [OF assms [unfolded local_retrieve_def]] .

lemma loaded_ids_listed:
  assumes "g \<in> set (types (load_type_library json listing r0))" and "get_id g \<noteq> None"
  shows "get_id g \<in> set (type_files (load_type_library json listing r0))"
proof (cases json)
  case None
  with assms show ?thesis
    by (auto simp: load_type_library_def Let_def get_id_def)
next
  case (Some data)
  from assms(2) have "gid g \<noteq> None" by (cases "gid g") (auto simp: get_id_def)
  with assms(1) Some show ?thesis
    by (auto simp: load_type_library_def)
qed

lemma local_score_bare:
  assumes "gname g = []" and "intents g = []" and "usage g = []"
  shows "local_score sm query g
     = fl64 (fl64 (fl64 (sm (py_strip (py_lower query))
                           (case get_id g of None \<Rightarrow> [] | Some i \<Rightarrow> i))))"
proof -
  have m: "min 0 (fl64 x) = 0" if "0 \<le> x" for x
    using fl64_nonneg [OF that] by (simp add: min_def)
  show ?thesis
    unfolding local_score_def Let_def assms
    by (simp add: findall_alpha_def py_lower_def fl64_zero m)
qed

text \<open>
  Claim C4, as the code has it.  On a loaded catalog, when the best local score is at
  least 0.75, it is the score of an entry of the catalog that no entry exceeds, and
  \<open>local_id\<close> is that entry's id.  When that id is a non-empty string, \<open>_retrieve\<close>
  returns it and sends nothing to the external classifier, whatever the classifier would
  have answered.  When that id is missing, null or empty and some entry has an id key,
  \<open>_retrieve\<close> goes on to consult the classifier.
\<close>

theorem high_confidence_returns_nonempty_id:
  assumes "r = load_type_library json listing r0"
    and "local_retrieve sm_ratio r query = (local_id, score)"
    and "0.75 \<le> score"
  shows "(\<exists>g \<in> set (types r). get_id g = local_id \<and> local_score sm_ratio query g = score)
       \<and> (\<forall>g \<in> set (types r). local_score sm_ratio query g \<le> score)
       \<and> (local_id \<noteq> None \<and> local_id \<noteq> Some []
            \<longrightarrow> retrieve_impl sm_ratio llm r query = (local_id, []))
       \<and> ((local_id = None \<or> local_id = Some []) \<and> type_files r \<noteq> []
            \<longrightarrow> snd (retrieve_impl sm_ratio llm r query) = [build_prompt r query])"
proof -
  have t: "truthy local_id \<longleftrightarrow> local_id \<noteq> None \<and> local_id \<noteq> Some []"
    by (cases local_id) (simp_all add: truthy_def)
  have thr: "fl64 0.75 \<le> score"
    unfolding fl64_three_quarters using assms(3) by simp
  from local_retrieve_best [OF assms(2)] assms(3)
  have best: "\<exists>g \<in> set (types r). get_id g = local_id \<and> local_score sm_ratio query g = score"
    and top: "\<forall>g \<in> set (types r). local_score sm_ratio query g \<le> score"
    by auto
  have hit: "retrieve_impl sm_ratio llm r query = (local_id, [])"
    if "local_id \<noteq> None" "local_id \<noteq> Some []"
  proof -
    from best obtain g where g: "g \<in> set (types r)" "get_id g = local_id" by blast
    with that(1) have "get_id g \<in> set (type_files r)"
      unfolding assms(1) by (intro loaded_ids_listed) simp_all
    then have "type_files r \<noteq> []" by auto
    then show ?thesis
      using that thr assms(2) by (simp add: retrieve_impl_def t)
  qed
  have miss: "snd (retrieve_impl sm_ratio llm r query) = [build_prompt r query]"
    if "local_id = None \<or> local_id = Some []" "type_files r \<noteq> []"
    using that assms(2) by (auto simp: retrieve_impl_def t Let_def)
  from best top hit miss show ?thesis by blast
qed

theorem high_confidence_returns_nonempty_id_witness:
  "retrieve_impl (\<lambda>a b. if a = b then 1 else 0) (\<lambda>p. Inr ''pinch'')
     (load_type_library None [''box.txt'', ''notes.md'', ''pinch.txt'']
        \<lparr>type_files = [], types = [], r_have_new_result = False, r_result = Some [],
          have_new_input = False, r_input = []\<rparr>)
     '' Box'' = (Some ''box'', [])"
proof -
  let ?sm = "\<lambda>a b :: string. if a = b then 1 else 0 :: real"
  let ?r = "load_type_library None [''box.txt'', ''notes.md'', ''pinch.txt'']
        \<lparr>type_files = [], types = [], r_have_new_result = False, r_result = Some [],
          have_new_input = False, r_input = []\<rparr>"
  have q: "py_strip (py_lower '' Box'') = ''box''"
    by (simp add: py_strip_def strip_chars_def is_space_def py_lower_def lower_char_def)
  have h2: "local_retrieve ?sm ?r '' Box'' = (Some ''box'', 1)"
    unfolding local_retrieve_def
    by (simp add: load_type_library_def Let_def local_score_bare q get_id_def
          fl64_one fl64_zero suffix_to_prefix)
  have h3: "(0.75 :: real) \<le> 1" by simp
  from high_confidence_returns_nonempty_id [OF refl h2 h3, of "\<lambda>p. Inr ''pinch''"]
  show ?thesis by simp
qed

text \<open>
  The claim as stated fails when the best-scoring entry has an empty id: with a file
  \<open>.txt\<close> in the library and a blank query, the stripped query and the id are both
  empty, their similarity is 1, and \<open>_retrieve\<close> consults the classifier and returns
  \<open>None\<close>.
\<close>

theorem blank_query_empty_id_counterexample:
  "local_retrieve (\<lambda>a b. if a = b then 1 else 0)
      (load_type_library None [''.txt'']
         \<lparr>type_files = [], types = [], r_have_new_result = False, r_result = Some [],
           have_new_input = False, r_input = []\<rparr>)
      '' '' = (Some [], 1)
   \<and> (0.75 :: real) \<le> 1
   \<and> retrieve_impl (\<lambda>a b. if a = b then 1 else 0) (\<lambda>p. Inr ''None'')
      (load_type_library None [''.txt'']
         \<lparr>type_files = [], types = [], r_have_new_result = False, r_result = Some [],
           have_new_input = False, r_input = []\<rparr>)
      '' ''
     = (None, [build_prompt
                 (load_type_library None [''.txt'']
                    \<lparr>type_files = [], types = [], r_have_new_result = False, r_result = Some [],
                      have_new_input = False, r_input = []\<rparr>)
                 '' ''])"
proof -
  let ?sm = "\<lambda>a b :: string. if a = b then 1 else 0 :: real"
  let ?r = "load_type_library None [''.txt'']
         \<lparr>type_files = [], types = [], r_have_new_result = False, r_result = Some [],
           have_new_input = False, r_input = []\<rparr>"
  have q: "py_strip (py_lower '' '') = []"
    by (simp add: py_strip_def strip_chars_def is_space_def py_lower_def lower_char_def)
  have l: "local_retrieve ?sm ?r '' '' = (Some [], 1)"
    unfolding local_retrieve_def
    by (simp add: load_type_library_def Let_def local_score_bare q get_id_def
          fl64_one fl64_zero suffix_to_prefix)
  have tf: "type_files ?r = [Some []]"
    by (simp add: load_type_library_def Let_def suffix_to_prefix)
  have s: "py_strip ''None'' = ''None''"
    by (simp add: py_strip_def strip_chars_def is_space_def)
  have "retrieve_impl ?sm (\<lambda>p. Inr ''None'') ?r '' '' = (None, [build_prompt ?r '' ''])"
    unfolding retrieve_impl_def l tf by (simp add: truthy_def Let_def s)
  with l show ?thesis by simp
qed





end
